theory Spec2Isabelle
  imports Complex_Main
begin

section \<open>Characters and strings\<close>

text \<open>
  The service scans the text of PDF spans. A Python \<^verbatim>\<open>str\<close> is modelled as a
  \<^typ>\<open>string\<close>, one \<^typ>\<open>char\<close> per character: a character is a code point below 256
  (Latin-1), and \<open>CHR 0xC9\<close> is the letter E with acute accent. On these code points the
  character predicates are Python's:
  \<^item> \<^verbatim>\<open>str.isdigit\<close> holds for \<^verbatim>\<open>0-9\<close> and for the superscript digits 0xB2, 0xB3, 0xB9,
    which \<^verbatim>\<open>int()\<close> rejects;
  \<^item> \<^verbatim>\<open>str.isspace\<close>, which is also the whitespace of \<^verbatim>\<open>str.split()\<close>, \<^verbatim>\<open>str.strip()\<close> and
    of \<^verbatim>\<open>\s\<close>, holds for 0x09-0x0D, 0x1C-0x1F, the blank, 0x85 and 0xA0;
  \<^item> \<^verbatim>\<open>str.isupper\<close> on one character holds for \<^verbatim>\<open>A-Z\<close> and for 0xC0-0xDE except 0xD7;
  \<^item> \<^verbatim>\<open>str.lower\<close> maps these capitals to the letter 0x20 above and nothing else.
  Code points from 256 on are not values of the type.

  A Python float is modelled by the real number it holds (no infinities, no NaN). A
  decimal literal of the source such as \<^verbatim>\<open>0.95\<close> is written as it is in the source. The
  rounding of the floating-point operations that compute a bounding box is a parameter
  \<open>rnd\<close> of the model, applied to the exact result of each operation as the hardware does;
  \<open>round_double\<close> below is the rounding of IEEE doubles.
\<close>

datatype py_error =
  ValueError | TypeError | KeyError | IndexError | OverflowError | AssertionError

definition isdigit :: "char \<Rightarrow> bool" where
  "isdigit c = (c \<in> set (''0123456789'' @ [CHR 0xB2, CHR 0xB3, CHR 0xB9]))"

definition latin1_upper :: string where
  "latin1_upper =
    [CHR 0xC0, CHR 0xC1, CHR 0xC2, CHR 0xC3, CHR 0xC4, CHR 0xC5, CHR 0xC6,
     CHR 0xC7, CHR 0xC8, CHR 0xC9, CHR 0xCA, CHR 0xCB, CHR 0xCC, CHR 0xCD,
     CHR 0xCE, CHR 0xCF, CHR 0xD0, CHR 0xD1, CHR 0xD2, CHR 0xD3, CHR 0xD4,
     CHR 0xD5, CHR 0xD6, CHR 0xD8, CHR 0xD9, CHR 0xDA, CHR 0xDB, CHR 0xDC,
     CHR 0xDD, CHR 0xDE]"

definition latin1_lower :: string where
  "latin1_lower =
    [CHR 0xE0, CHR 0xE1, CHR 0xE2, CHR 0xE3, CHR 0xE4, CHR 0xE5, CHR 0xE6,
     CHR 0xE7, CHR 0xE8, CHR 0xE9, CHR 0xEA, CHR 0xEB, CHR 0xEC, CHR 0xED,
     CHR 0xEE, CHR 0xEF, CHR 0xF0, CHR 0xF1, CHR 0xF2, CHR 0xF3, CHR 0xF4,
     CHR 0xF5, CHR 0xF6, CHR 0xF8, CHR 0xF9, CHR 0xFA, CHR 0xFB, CHR 0xFC,
     CHR 0xFD, CHR 0xFE]"

definition isupper :: "char \<Rightarrow> bool" where
  "isupper c = (c \<in> set (''ABCDEFGHIJKLMNOPQRSTUVWXYZ'' @ latin1_upper))"

definition isspace :: "char \<Rightarrow> bool" where
  "isspace c = (c \<in> set [CHR '' '', CHR 0x09, CHR 0x0A, CHR 0x0B, CHR 0x0C, CHR 0x0D,
                          CHR 0x1C, CHR 0x1D, CHR 0x1E, CHR 0x1F, CHR 0x85, CHR 0xA0])"

text \<open>
  \<^verbatim>\<open>int(d)\<close> on one character: a \<^verbatim>\<open>ValueError\<close> unless it is a decimal digit. The
  superscript digits are no decimal digits.
\<close>

definition py_int :: "char \<Rightarrow> py_error + nat" where
  "py_int d = (if d \<in> set ''0123456789'' then Inr (of_char d - 48) else Inl ValueError)"

definition lower_chr :: "char \<Rightarrow> char" where
  "lower_chr c =
     (case map_of (zip (''ABCDEFGHIJKLMNOPQRSTUVWXYZ'' @ latin1_upper)
                       (''abcdefghijklmnopqrstuvwxyz'' @ latin1_lower)) c of
        None \<Rightarrow> c
      | Some l \<Rightarrow> l)"

definition lower :: "string \<Rightarrow> string" where
  "lower s = map lower_chr s"

text \<open>\<^verbatim>\<open>sub in s\<close> on strings: \<^verbatim>\<open>sub\<close> occurs in \<^verbatim>\<open>s\<close> as a contiguous substring.\<close>

fun startswith :: "string \<Rightarrow> string \<Rightarrow> bool" where
  "startswith s [] = True"
| "startswith [] (p # ps) = False"
| "startswith (c # cs) (p # ps) = (c = p \<and> startswith cs ps)"

fun contains :: "string \<Rightarrow> string \<Rightarrow> bool" where
  "contains sub [] = (sub = [])"
| "contains sub (c # cs) = (startswith (c # cs) sub \<or> contains sub cs)"

text \<open>A list comprehension whose element expression may raise: the first error wins.\<close>

fun collect :: "('a \<Rightarrow> py_error + 'b) \<Rightarrow> 'a list \<Rightarrow> py_error + 'b list" where
  "collect f [] = Inr []"
| "collect f (x # xs) =
     (case f x of
        Inl e \<Rightarrow> Inl e
      | Inr y \<Rightarrow> (case collect f xs of Inl e \<Rightarrow> Inl e | Inr ys \<Rightarrow> Inr (y # ys)))"

section \<open>Checksum validator: \<^verbatim>\<open>PIIDetector.luhn_check\<close>\<close>

text \<open>
  The loop \<^verbatim>\<open>for i, digit in enumerate(reversed(digits))\<close> with its running
  \<^verbatim>\<open>checksum\<close>: \<open>luhn_loop i ds checksum\<close> is the loop from index \<open>i\<close> on.
\<close>

fun luhn_loop :: "nat \<Rightarrow> nat list \<Rightarrow> nat \<Rightarrow> nat" where
  "luhn_loop i [] checksum = checksum"
| "luhn_loop i (digit # ds) checksum =
     luhn_loop (i + 1) ds
       (checksum +
         (if i mod 2 = 1
          then (let digit = digit * 2 in if digit > 9 then digit - 9 else digit)
          else digit))"

text \<open>The body of the \<^verbatim>\<open>try\<close> block; an exception is the \<open>Inl\<close> of the result.\<close>

definition luhn_try :: "string \<Rightarrow> py_error + bool" where
  "luhn_try card_number =
     (case collect py_int (filter isdigit card_number) of
        Inl e \<Rightarrow> Inl e
      | Inr digits \<Rightarrow>
          if length digits < 13 \<or> length digits > 19 then Inr False
          else Inr (luhn_loop 0 (rev digits) 0 mod 10 = 0))"

text \<open>The bare \<^verbatim>\<open>except: return False\<close> catches every exception.\<close>

definition luhn_check :: "string \<Rightarrow> bool" where
  "luhn_check card_number =
     (case luhn_try card_number of Inl e \<Rightarrow> False | Inr b \<Rightarrow> b)"

text \<open>
  The specification's wording of the checksum, to compare \<open>luhn_check\<close> with: the
  decimal digits of the string, and the sum over positions counted from the right,
  starting at 0, in which the digits at positions 1, 3, 5, ... are doubled and 9 is
  subtracted from a doubled digit that exceeds 9.
\<close>

definition decimal :: "char \<Rightarrow> bool" where
  "decimal c = (c \<in> set ''0123456789'')"

definition digits_of :: "string \<Rightarrow> nat list" where
  "digits_of s = map (\<lambda>c. of_char c - 48) (filter decimal s)"

definition luhn_term :: "nat \<Rightarrow> nat \<Rightarrow> nat" where
  "luhn_term i d = (if odd i then (if 2 * d > 9 then 2 * d - 9 else 2 * d) else d)"

definition luhn_spec_sum :: "nat list \<Rightarrow> nat" where
  "luhn_spec_sum ds = (\<Sum>i<length ds. luhn_term i (rev ds ! i))"

text \<open>
  A string holds an unconvertible digit when one of its characters passes
  \<^verbatim>\<open>str.isdigit\<close> and is no decimal digit. \<open>digit_value\<close> is the digit such a character
  stands for in Unicode (2, 3 and 1 for the three superscripts), for the reading of the
  specification in which every \<^verbatim>\<open>isdigit\<close> character is a digit of the number.
\<close>

definition unconvertible :: "string \<Rightarrow> bool" where
  "unconvertible s = list_ex (\<lambda>c. isdigit c \<and> \<not> decimal c) s"

definition digit_value :: "char \<Rightarrow> nat" where
  "digit_value c =
     (if c = CHR 0xB2 then 2 else if c = CHR 0xB3 then 3 else if c = CHR 0xB9 then 1
      else of_char c - 48)"

definition superscript_card :: string where
  "superscript_card = [CHR 0xB3, CHR 0xB2, CHR 0xB3] @ ''4532015112830366''"

section \<open>Confidence scorer: \<^verbatim>\<open>PIIDetector.calculate_confidence\<close>\<close>

text \<open>
  \<^verbatim>\<open>re.sub(r'[-\s]', '', text)\<close> deletes every hyphen and every whitespace character;
  \<^verbatim>\<open>any(domain in text.lower() for domain in [...])\<close> is \<open>list_ex\<close> over the four names.
\<close>

definition calculate_confidence :: "string \<Rightarrow> string \<Rightarrow> real" where
  "calculate_confidence category text =
     (if category = ''SSN'' then 0.95
      else if category = ''EMAIL'' then
        (if list_ex (\<lambda>domain. contains domain (lower text))
              [''gmail.com'', ''yahoo.com'', ''outlook.com'', ''hotmail.com'']
         then 0.95 else 0.90)
      else if category = ''CREDIT_CARD'' then
        (let card_num = filter (\<lambda>c. \<not> (c = CHR ''-'' \<or> isspace c)) text
         in if luhn_check card_num then 0.95 else 0.70)
      else if category = ''PHONE'' then 0.88
      else if category = ''DATE_OF_BIRTH'' then 0.85
      else if category = ''ADDRESS'' then 0.80
      else if category = ''ZIP_CODE'' then 0.82
      else if category = ''NAME'' then 0.75
      else 0.80)"

text \<open>
  The domain of an e-mail address, in the specification's sense: what follows the
  \<^verbatim>\<open>@\<close> sign (a match of the EMAIL pattern has exactly one).
\<close>

definition email_domain :: "string \<Rightarrow> string" where
  "email_domain text = drop 1 (dropWhile (\<lambda>c. c \<noteq> CHR ''@'') text)"

section \<open>Pattern table: \<^verbatim>\<open>PIIDetector.PATTERNS\<close>\<close>

text \<open>
  The patterns are regular expressions of Python's \<^verbatim>\<open>re\<close> module, written here as
  syntax trees. \<open>Bound\<close> is \<^verbatim>\<open>\b\<close>, \<open>CDigit\<close> is \<^verbatim>\<open>\d\<close>, \<open>CSpace\<close> is \<^verbatim>\<open>\s\<close>,
  \<open>Repeat m (Some n) r\<close> is \<^verbatim>\<open>r{m,n}\<close>, \<open>Repeat m None r\<close> is \<^verbatim>\<open>r{m,}\<close>, \<open>Group\<close> is a
  capturing group and \<open>Seq\<close>, \<open>Alt\<close> are concatenation and alternation.
\<close>

datatype cset = CRange char char | CChar char | CDigit | CSpace

datatype regex =
    Bound
  | CharSet "cset list"
  | Lit string
  | Seq "regex list"
  | Alt "regex list"
  | Repeat nat "nat option" regex
  | Group regex

definition digits :: "nat \<Rightarrow> regex" where
  "digits n = Repeat n (Some n) (CharSet [CDigit])"

definition optional :: "regex \<Rightarrow> regex" where
  "optional r = Repeat 0 (Some 1) r"

definition PATTERNS :: "(string \<times> regex) list" where
  "PATTERNS =
    [(''SSN'',
        Seq [Bound, digits 3, Lit ''-'', digits 2, Lit ''-'', digits 4, Bound]),
     (''EMAIL'',
        Seq [Bound,
             Repeat 1 None (CharSet [CRange CHR ''A'' CHR ''Z'', CRange CHR ''a'' CHR ''z'',
                                     CRange CHR ''0'' CHR ''9'', CChar CHR ''.'', CChar CHR ''_'',
                                     CChar CHR ''%'', CChar CHR ''+'', CChar CHR ''-'']),
             Lit ''@'',
             Repeat 1 None (CharSet [CRange CHR ''A'' CHR ''Z'', CRange CHR ''a'' CHR ''z'',
                                     CRange CHR ''0'' CHR ''9'', CChar CHR ''.'', CChar CHR ''-'']),
             Lit ''.'',
             Repeat 2 None (CharSet [CRange CHR ''A'' CHR ''Z'', CChar CHR ''|'',
                                     CRange CHR ''a'' CHR ''z'']),
             Bound]),
     (''PHONE'',
        Seq [Bound,
             optional (Seq [optional (Lit ''+''), Lit ''1'',
                            optional (CharSet [CChar CHR ''-'', CChar CHR ''.''])]),
             optional (Lit ''(''),
             Group (Repeat 3 (Some 3) (CharSet [CRange CHR ''0'' CHR ''9''])),
             optional (Lit '')''),
             optional (CharSet [CChar CHR ''-'', CChar CHR ''.'']),
             Group (Repeat 3 (Some 3) (CharSet [CRange CHR ''0'' CHR ''9''])),
             optional (CharSet [CChar CHR ''-'', CChar CHR ''.'']),
             Group (Repeat 4 (Some 4) (CharSet [CRange CHR ''0'' CHR ''9''])),
             Bound]),
     (''CREDIT_CARD'',
        Seq [Bound,
             Repeat 3 (Some 3) (Seq [digits 4, optional (CharSet [CChar CHR ''-'', CSpace])]),
             digits 4, Bound]),
     (''DATE_OF_BIRTH'',
        Seq [Bound,
             Alt [Seq [Lit ''0'', CharSet [CRange CHR ''1'' CHR ''9'']],
                  Seq [Lit ''1'', CharSet [CRange CHR ''0'' CHR ''2'']]],
             CharSet [CChar CHR ''/'', CChar CHR ''-''],
             Alt [Seq [Lit ''0'', CharSet [CRange CHR ''1'' CHR ''9'']],
                  Seq [CharSet [CChar CHR ''1'', CChar CHR ''2''], CharSet [CRange CHR ''0'' CHR ''9'']],
                  Seq [Lit ''3'', CharSet [CChar CHR ''0'', CChar CHR ''1'']]],
             CharSet [CChar CHR ''/'', CChar CHR ''-''],
             Alt [Lit ''19'', Lit ''20''],
             digits 2, Bound]),
     (''ZIP_CODE'',
        Seq [Bound, digits 5, optional (Seq [Lit ''-'', digits 4]), Bound]),
     (''ADDRESS'',
        Seq [Bound,
             Repeat 1 None (CharSet [CDigit]),
             Repeat 1 None (CharSet [CSpace]),
             Repeat 1 None (CharSet [CRange CHR ''A'' CHR ''Z'', CRange CHR ''a'' CHR ''z'', CSpace]),
             Alt [Lit ''Street'', Lit ''St'', Lit ''Avenue'', Lit ''Ave'', Lit ''Road'', Lit ''Rd'',
                  Lit ''Boulevard'', Lit ''Blvd'', Lit ''Lane'', Lit ''Ln'', Lit ''Drive'', Lit ''Dr'',
                  Lit ''Court'', Lit ''Ct'', Lit ''Circle'', Lit ''Cir''],
             Bound])]"

definition NAME_INDICATORS :: "string list" where
  "NAME_INDICATORS = [''Mr.'', ''Mrs.'', ''Ms.'', ''Dr.'', ''Prof.'', ''Miss'']"

text \<open>
  \<^verbatim>\<open>re.finditer(pattern, text, re.IGNORECASE)\<close> belongs to Python's library, not to this
  program. It is a parameter of the model: a function from the pattern and the text to
  the matches in the order the iterator yields them, each match given by its offsets
  \<^verbatim>\<open>(match.start(), match.end())\<close>. \<^verbatim>\<open>match.group()\<close> is the text between the offsets.
\<close>

type_synonym py_match = "nat \<times> nat"

type_synonym finditer = "regex \<Rightarrow> string \<Rightarrow> py_match list"

definition match_group :: "string \<Rightarrow> py_match \<Rightarrow> string" where
  "match_group text m = take (snd m - fst m) (drop (fst m) text)"

section \<open>String helpers of the Python library used by the detector\<close>

text \<open>\<^verbatim>\<open>str(n)\<close> for an integer.\<close>

fun str_nat :: "nat \<Rightarrow> string" where
  "str_nat n =
     (if n < 10 then [''0123456789'' ! n]
      else str_nat (n div 10) @ [''0123456789'' ! (n mod 10)])"

definition str_int :: "int \<Rightarrow> string" where
  "str_int i = (if i < 0 then ''-'' @ str_nat (nat (- i)) else str_nat (nat i))"

text \<open>
  \<^verbatim>\<open>s.replace("_", " ")\<close> and \<^verbatim>\<open>s.title()\<close>. The detector titles the keys of
  \<^verbatim>\<open>PATTERNS\<close> only. (Three small letters, 0xB5, 0xDF and 0xFF, have their capital outside
  Latin-1; \<open>upper_chr\<close> leaves them, and \<^verbatim>\<open>title\<close> is Python's on every other string.)
\<close>

definition replace_underscores :: "string \<Rightarrow> string" where
  "replace_underscores s = map (\<lambda>c. if c = CHR ''_'' then CHR '' '' else c) s"

definition islower :: "char \<Rightarrow> bool" where
  "islower c =
     (c \<in> set (''abcdefghijklmnopqrstuvwxyz'' @ latin1_lower @
               [CHR 0xAA, CHR 0xB5, CHR 0xBA, CHR 0xDF, CHR 0xFF]))"

definition upper_chr :: "char \<Rightarrow> char" where
  "upper_chr c =
     (case map_of (zip (''abcdefghijklmnopqrstuvwxyz'' @ latin1_lower)
                       (''ABCDEFGHIJKLMNOPQRSTUVWXYZ'' @ latin1_upper)) c of
        None \<Rightarrow> c
      | Some u \<Rightarrow> u)"

fun title_from :: "bool \<Rightarrow> string \<Rightarrow> string" where
  "title_from previous_is_cased [] = []"
| "title_from previous_is_cased (c # cs) =
     (if islower c then
        (if previous_is_cased then c else upper_chr c) # title_from True cs
      else if isupper c then
        (if previous_is_cased then lower_chr c else c) # title_from True cs
      else c # title_from False cs)"

definition title :: "string \<Rightarrow> string" where
  "title s = title_from False s"

text \<open>
  \<^verbatim>\<open>text.split(sep)\<close>: the pieces between the occurrences of \<open>sep\<close>, found from the
  left without overlap. \<open>split_from sep cur s\<close> continues a scan whose current piece
  so far is \<open>cur\<close>. (Python raises on an empty separator; the detector only splits at
  the indicators, which are not empty.)
\<close>

function split_from :: "string \<Rightarrow> string \<Rightarrow> string \<Rightarrow> string list" where
  "split_from sep cur [] = [cur]"
| "split_from sep cur (c # cs) =
     (if sep \<noteq> [] \<and> startswith (c # cs) sep
      then cur # split_from sep [] (drop (length sep) (c # cs))
      else split_from sep (cur @ [c]) cs)"
  by pat_completeness auto
termination
  by (relation "measure (\<lambda>(sep, cur, s). length s)") auto

definition split :: "string \<Rightarrow> string \<Rightarrow> string list" where
  "split sep s = split_from sep [] s"

text \<open>\<^verbatim>\<open>s.strip()\<close> and \<^verbatim>\<open>s.split()\<close> (split at runs of whitespace, no empty pieces).\<close>

definition strip :: "string \<Rightarrow> string" where
  "strip s = rev (dropWhile isspace (rev (dropWhile isspace s)))"

fun split_ws_from :: "string \<Rightarrow> string \<Rightarrow> string list" where
  "split_ws_from cur [] = (if cur = [] then [] else [cur])"
| "split_ws_from cur (c # cs) =
     (if isspace c then (if cur = [] then split_ws_from [] cs else cur # split_ws_from [] cs)
      else split_ws_from (cur @ [c]) cs)"

definition split_ws :: "string \<Rightarrow> string list" where
  "split_ws s = split_ws_from [] s"

fun join :: "string \<Rightarrow> string list \<Rightarrow> string" where
  "join sep [] = []"
| "join sep [w] = w"
| "join sep (w # ws) = w @ sep @ join sep ws"

section \<open>Double arithmetic\<close>

text \<open>
  The rounding of IEEE doubles, to the nearest double with ties to the even mantissa: a
  real \<open>x\<close> other than 0 lies in one binade \<open>2\<^sup>e \<le> |x| < 2\<^sup>e\<^sup>+\<^sup>1\<close>, where the doubles are
  the multiples of \<open>2\<^sup>e\<^sup>-\<^sup>5\<^sup>2\<close> (of \<open>2\<^sup>-\<^sup>1\<^sup>0\<^sup>7\<^sup>4\<close> below the normal range). \<open>binade n x e\<close>
  searches the exponent from \<open>e\<close> in at most \<open>n\<close> steps; 2200 steps reach every exponent
  of a double. Results beyond the largest double are outside the model.
\<close>

definition pow2 :: "int \<Rightarrow> real" where
  "pow2 e = (if 0 \<le> e then 2 ^ nat e else 1 / 2 ^ nat (- e))"

definition round_half_even :: "real \<Rightarrow> int" where
  "round_half_even x =
     (let f = \<lfloor>x\<rfloor>
      in if x - of_int f < 1 / 2 then f
         else if x - of_int f > 1 / 2 then f + 1
         else if even f then f else f + 1)"

fun binade :: "nat \<Rightarrow> real \<Rightarrow> int \<Rightarrow> int" where
  "binade n x e =
     (if n = 0 then e
      else if x < pow2 e then binade (n - 1) x (e - 1)
      else if pow2 (e + 1) \<le> x then binade (n - 1) x (e + 1)
      else e)"

definition round_double :: "real \<Rightarrow> real" where
  "round_double x =
     (if x = 0 then 0
      else (let e = max (binade 2200 \<bar>x\<bar> 0) (- 1022);
                ulp = pow2 (e - 52)
            in of_int (round_half_even (x / ulp)) * ulp))"

section \<open>Finding aggregator: \<^verbatim>\<open>PIIDetector.detect_in_text\<close>\<close>

type_synonym bbox = "real \<times> real \<times> real \<times> real"

record finding =
  f_id :: string
  f_category :: string
  f_name :: string
  f_text :: string
  f_confidence :: real
  f_page :: int
  f_bbox :: bbox

text \<open>
  \<^verbatim>\<open>uuid4().hex[:8]\<close> is the program's only source of randomness. A run draws its
  random suffixes from a sequence \<open>uuid\<close>, the next one each time; the state of the
  two loops is the list \<open>findings\<close> together with the number of suffixes drawn so far.
  The bounding box \<^verbatim>\<open>[x1, y1, x2, y2]\<close> is a quadruple of floats. Each floating-point
  operation on the box is the exact operation followed by the rounding \<open>rnd\<close>;
  \<^verbatim>\<open>match_start / text_length\<close> divides two integers and rounds once.
\<close>

type_synonym detect_state = "finding list \<times> nat"

text \<open>The body of \<^verbatim>\<open>for match in matches\<close>.\<close>

definition match_step ::
  "(real \<Rightarrow> real) \<Rightarrow> (nat \<Rightarrow> string) \<Rightarrow> string \<Rightarrow> bbox \<Rightarrow> int \<Rightarrow> real \<Rightarrow> string \<Rightarrow> py_match \<Rightarrow>
   detect_state \<Rightarrow> detect_state" where
  "match_step rnd uuid text bbox page_num confidence_threshold category m st =
     (let confidence = calculate_confidence category (match_group text m) in
      if confidence \<ge> confidence_threshold then
        (let match_start = fst m;
             match_end = snd m;
             text_length = length text;
             match_bbox =
               (if text_length > 0 then
                  (let start_ratio = rnd (real match_start / real text_length);
                       end_ratio = rnd (real match_end / real text_length);
                       (x1, y1, x2, y2) = bbox;
                       width = rnd (x2 - x1);
                       match_x1 = rnd (x1 + rnd (width * start_ratio));
                       match_x2 = rnd (x1 + rnd (width * end_ratio))
                   in (match_x1, y1, match_x2, y2))
                else bbox);
             finding_id = category @ ''_'' @ str_int page_num @ ''_'' @ uuid (snd st)
         in (fst st @
               [\<lparr>f_id = finding_id,
                 f_category = category,
                 f_name = title (replace_underscores category),
                 f_text = match_group text m,
                 f_confidence = confidence,
                 f_page = page_num,
                 f_bbox = match_bbox\<rparr>],
             snd st + 1))
      else st)"

text \<open>The body of \<^verbatim>\<open>for category in categories\<close>.\<close>

definition category_step ::
  "(real \<Rightarrow> real) \<Rightarrow> finditer \<Rightarrow> (nat \<Rightarrow> string) \<Rightarrow> string \<Rightarrow> bbox \<Rightarrow> int \<Rightarrow> real \<Rightarrow> string \<Rightarrow>
   detect_state \<Rightarrow> detect_state" where
  "category_step rnd finditer uuid text bbox page_num confidence_threshold category st =
     (case map_of PATTERNS category of
        None \<Rightarrow> st
      | Some pattern \<Rightarrow>
          fold (match_step rnd uuid text bbox page_num confidence_threshold category)
            (finditer pattern text) st)"

text \<open>The body of \<^verbatim>\<open>for indicator in PIIDetector.NAME_INDICATORS\<close>.\<close>

definition indicator_step ::
  "(nat \<Rightarrow> string) \<Rightarrow> string \<Rightarrow> bbox \<Rightarrow> int \<Rightarrow> real \<Rightarrow> string \<Rightarrow>
   detect_state \<Rightarrow> detect_state" where
  "indicator_step uuid text bbox page_num confidence_threshold indicator st =
     (if contains indicator text then
        (let parts = split indicator text in
         if length parts > 1 then
           (let words_after = take 3 (split_ws (strip (parts ! 1))) in
            if length words_after \<ge> 2 then
              (if list_all (\<lambda>word. isupper (hd word)) (filter (\<lambda>word. word \<noteq> []) words_after)
               then
                 (let name_text = join '' '' words_after;
                      confidence = calculate_confidence ''NAME'' name_text
                  in if confidence \<ge> confidence_threshold then
                       (let finding_id = ''NAME_'' @ str_int page_num @ ''_'' @ uuid (snd st)
                        in (fst st @
                              [\<lparr>f_id = finding_id,
                                f_category = ''NAME'',
                                f_name = ''Name'',
                                f_text = indicator @ '' '' @ name_text,
                                f_confidence = confidence,
                                f_page = page_num,
                                f_bbox = bbox\<rparr>],
                            snd st + 1))
                     else st)
               else st)
            else st)
         else st)
      else st)"

definition detect_in_text ::
  "(real \<Rightarrow> real) \<Rightarrow> finditer \<Rightarrow> (nat \<Rightarrow> string) \<Rightarrow> string \<Rightarrow> bbox \<Rightarrow> int \<Rightarrow> string list \<Rightarrow> real \<Rightarrow>
   finding list" where
  "detect_in_text rnd finditer uuid text bbox page_num categories confidence_threshold =
     (let st = ([], 0);
          st = fold (category_step rnd finditer uuid text bbox page_num confidence_threshold)
                 categories st;
          st = (if ''NAME'' \<in> set categories
                then fold (indicator_step uuid text bbox page_num confidence_threshold)
                       NAME_INDICATORS st
                else st)
      in fst st)"

section \<open>Redaction area validator: \<^verbatim>\<open>validate_redaction_area\<close>\<close>

text \<open>
  The areas of a redaction request are declared \<^verbatim>\<open>List[Dict]\<close>: each area is a
  dictionary decoded from JSON whose values may be of any JSON type. An integer is a
  Python \<^verbatim>\<open>int\<close> of any size.
\<close>

datatype json =
    JNull
  | JBool bool
  | JInt int
  | JFloat real
  | JStr string
  | JList "json list"
  | JObject "(string \<times> json) list"

type_synonym area = "string \<Rightarrow> json option"

definition py_bind :: "py_error + 'a \<Rightarrow> ('a \<Rightarrow> py_error + 'b) \<Rightarrow> py_error + 'b" where
  "py_bind r f = (case r of Inl e \<Rightarrow> Inl e | Inr v \<Rightarrow> f v)"

text \<open>\<^verbatim>\<open>area.get(key, dflt)\<close> and \<^verbatim>\<open>area[key]\<close>.\<close>

definition dict_get :: "area \<Rightarrow> string \<Rightarrow> json \<Rightarrow> json" where
  "dict_get area key dflt = (case area key of None \<Rightarrow> dflt | Some v \<Rightarrow> v)"

definition dict_item :: "area \<Rightarrow> string \<Rightarrow> py_error + json" where
  "dict_item area key = (case area key of None \<Rightarrow> Inl KeyError | Some v \<Rightarrow> Inr v)"

text \<open>
  \<^verbatim>\<open>float(v)\<close>. A bool converts as 0 or 1; an \<^verbatim>\<open>int\<close> converts unless it is too large
  for a double, that is unless it rounds beyond the largest double
  \<open>2\<^sup>1\<^sup>0\<^sup>2\<^sup>4 - 2\<^sup>9\<^sup>7\<^sup>1\<close>, and then Python raises \<^verbatim>\<open>OverflowError\<close>; a string is parsed by
  the library, here the parameter \<open>parse\<close>, which gives \<open>None\<close> where the library raises
  \<^verbatim>\<open>ValueError\<close>; \<^verbatim>\<open>None\<close>, a list and a dictionary raise \<^verbatim>\<open>TypeError\<close>.
\<close>

definition py_float :: "(string \<Rightarrow> real option) \<Rightarrow> json \<Rightarrow> py_error + real" where
  "py_float parse v =
     (case v of
        JNull \<Rightarrow> Inl TypeError
      | JBool b \<Rightarrow> Inr (if b then 1 else 0)
      | JInt n \<Rightarrow> if \<bar>n\<bar> \<ge> 2 ^ 1024 - 2 ^ 970 then Inl OverflowError else Inr (real_of_int n)
      | JFloat r \<Rightarrow> Inr r
      | JStr s \<Rightarrow> (case parse s of None \<Rightarrow> Inl ValueError | Some r \<Rightarrow> Inr r)
      | JList vs \<Rightarrow> Inl TypeError
      | JObject kvs \<Rightarrow> Inl TypeError)"

text \<open>
  The value of \<open>v\<close> in an order comparison with an \<^verbatim>\<open>int\<close>, as in \<^verbatim>\<open>page < 1\<close>:
  numbers compare by value, anything else raises \<^verbatim>\<open>TypeError\<close>.
\<close>

definition py_number :: "json \<Rightarrow> py_error + real" where
  "py_number v =
     (case v of
        JBool b \<Rightarrow> Inr (if b then 1 else 0)
      | JInt n \<Rightarrow> Inr (real_of_int n)
      | JFloat r \<Rightarrow> Inr r
      | JNull \<Rightarrow> Inl TypeError
      | JStr s \<Rightarrow> Inl TypeError
      | JList vs \<Rightarrow> Inl TypeError
      | JObject kvs \<Rightarrow> Inl TypeError)"

text \<open>The body of the \<^verbatim>\<open>try\<close> block of \<^verbatim>\<open>validate_redaction_area\<close>.\<close>

definition validate_try :: "(string \<Rightarrow> real option) \<Rightarrow> area \<Rightarrow> int \<Rightarrow> py_error + bool" where
  "validate_try parse area page_count =
     (let page = dict_get area ''page'' (JInt 1) in
      py_bind (py_float parse (dict_get area ''x'' (JInt 0))) (\<lambda>x.
      py_bind (py_float parse (dict_get area ''y'' (JInt 0))) (\<lambda>y.
      py_bind (py_float parse (dict_get area ''width'' (JInt 0))) (\<lambda>width.
      py_bind (py_float parse (dict_get area ''height'' (JInt 0))) (\<lambda>height.
      py_bind (py_number page) (\<lambda>page.
        if page < 1 \<or> page > real_of_int page_count then Inr False
        else if x < 0 \<or> y < 0 \<or> width \<le> 0 \<or> height \<le> 0 then Inr False
        else if width > 10000 \<or> height > 10000 then Inr False
        else Inr True))))))"

text \<open>\<^verbatim>\<open>except (ValueError, TypeError): return False\<close>; any other exception propagates.\<close>

definition validate_redaction_area ::
  "(string \<Rightarrow> real option) \<Rightarrow> area \<Rightarrow> int \<Rightarrow> py_error + bool" where
  "validate_redaction_area parse area page_count =
     (case validate_try parse area page_count of
        Inl ValueError \<Rightarrow> Inr False
      | Inl TypeError \<Rightarrow> Inr False
      | Inl e \<Rightarrow> Inl e
      | Inr b \<Rightarrow> Inr b)"

section \<open>Applying the redactions: the loop of \<^verbatim>\<open>redact_pdf\<close>\<close>

text \<open>
  The state of the loop \<^verbatim>\<open>for item in areas_list\<close>: the redaction annotations added
  to the document so far (page index and rectangle, in the order of
  \<^verbatim>\<open>page.add_redact_annot\<close>), the counter \<^verbatim>\<open>redactions_applied\<close> and the log. The
  document is the list of its pages' sizes \<^verbatim>\<open>(page.rect.width, page.rect.height)\<close>. A log
  line is its level and its fixed text, without the interpolated values.
\<close>

datatype log_level = INFO | WARNING

type_synonym rect = "real \<times> real \<times> real \<times> real"

record redact_state =
  annots :: "(int \<times> rect) list"
  redactions_applied :: nat
  logged :: "(log_level \<times> string) list"

definition logger :: "log_level \<Rightarrow> string \<Rightarrow> redact_state \<Rightarrow> redact_state" where
  "logger level msg st = st\<lparr>logged := logged st @ [(level, msg)]\<rparr>"

text \<open>\<^verbatim>\<open>item.get("page", 1) - 1\<close>; the result is an \<^verbatim>\<open>int\<close> unless the page is a float.\<close>

definition page_index :: "json \<Rightarrow> py_error + json" where
  "page_index v =
     (case v of
        JBool b \<Rightarrow> Inr (JInt ((if b then 1 else 0) - 1))
      | JInt n \<Rightarrow> Inr (JInt (n - 1))
      | JFloat r \<Rightarrow> Inr (JFloat (r - 1))
      | JNull \<Rightarrow> Inl TypeError
      | JStr s \<Rightarrow> Inl TypeError
      | JList vs \<Rightarrow> Inl TypeError
      | JObject kvs \<Rightarrow> Inl TypeError)"

text \<open>
  \<^verbatim>\<open>doc[page_number]\<close> is the PDF library's: it gives the page for an integer index
  below the page count, raises \<^verbatim>\<open>IndexError\<close> for an integer that is no page of the
  document, and fails its assertion on an index that is no integer.
\<close>

definition doc_getitem :: "(real \<times> real) list \<Rightarrow> json \<Rightarrow> py_error + (real \<times> real)" where
  "doc_getitem doc i =
     (case i of
        JInt n \<Rightarrow> if 0 \<le> n \<and> n < int (length doc) then Inr (doc ! nat n) else Inl IndexError
      | JNull \<Rightarrow> Inl AssertionError
      | JBool b \<Rightarrow> Inl AssertionError
      | JFloat r \<Rightarrow> Inl AssertionError
      | JStr s \<Rightarrow> Inl AssertionError
      | JList vs \<Rightarrow> Inl AssertionError
      | JObject kvs \<Rightarrow> Inl AssertionError)"

definition the_index :: "json \<Rightarrow> int" where
  "the_index i = (case i of JInt n \<Rightarrow> n | _ \<Rightarrow> 0)"

text \<open>
  The body of the loop. An exception leaves the loop and fails the whole request
  (\<open>Inl\<close>); \<^verbatim>\<open>continue\<close> and the end of the body give the next state.
\<close>

definition redact_step ::
  "(string \<Rightarrow> real option) \<Rightarrow> (real \<times> real) list \<Rightarrow> area \<Rightarrow> redact_state \<Rightarrow>
   py_error + redact_state" where
  "redact_step parse doc item st0 =
     (let page_count = int (length doc);
          st = logger INFO ''Processing redaction area'' st0 in
      py_bind (validate_redaction_area parse item page_count) (\<lambda>valid.
        if \<not> valid then Inr (logger WARNING ''Invalid redaction area'' st)
        else
          py_bind (page_index (dict_get item ''page'' (JInt 1))) (\<lambda>page_number.
          let st = logger INFO ''Applying redaction on page'' st in
          py_bind (doc_getitem doc page_number) (\<lambda>page_rect.
          let st = logger INFO ''Page dimensions'' st in
          py_bind (py_bind (dict_item item ''x'') (py_float parse)) (\<lambda>x.
          py_bind (py_bind (dict_item item ''y'') (py_float parse)) (\<lambda>y.
          py_bind (py_bind (dict_item item ''width'') (py_float parse)) (\<lambda>width.
          py_bind (py_bind (dict_item item ''height'') (py_float parse)) (\<lambda>height.
          let rect = (x, y, x + width, y + height);
              st = logger INFO ''Redaction rectangle'' st;
              st = logger INFO ''Rectangle bounds'' st;
              st = (case rect of (rx0, ry0, rx1, ry1) \<Rightarrow>
                     if rx0 < 0 \<or> ry0 < 0 \<or> rx1 > fst page_rect \<or> ry1 > snd page_rect
                     then logger WARNING ''Rectangle extends beyond page bounds'' st
                     else st);
              st = st\<lparr>annots := annots st @ [(the_index page_number, rect)]\<rparr>;
              st = st\<lparr>redactions_applied := redactions_applied st + 1\<rparr>;
              st = logger INFO ''Successfully added redaction annotation'' st
          in Inr st))))))))"

section \<open>Notions of the specification\<close>

text \<open>
  The definitions of this section are not code of the service: they state what the
  specification says, in its words, and the theorems compare the code with them.
\<close>

text \<open>The text that follows the first occurrence of \<open>sep\<close>, and the text before it.\<close>

fun after_first :: "string \<Rightarrow> string \<Rightarrow> string" where
  "after_first sep [] = []"
| "after_first sep (c # cs) =
     (if startswith (c # cs) sep then drop (length sep) (c # cs) else after_first sep cs)"

fun before_first :: "string \<Rightarrow> string \<Rightarrow> string" where
  "before_first sep [] = []"
| "before_first sep (c # cs) =
     (if startswith (c # cs) sep then [] else c # before_first sep cs)"

text \<open>A finding without its random identifier, and the fields other than the identifier.\<close>

definition anonymous :: "finding \<Rightarrow> finding" where
  "anonymous f = f\<lparr>f_id := []\<rparr>"

definition content :: "finding \<Rightarrow> string \<times> string \<times> string \<times> real \<times> int \<times> bbox" where
  "content f = (f_category f, f_name f, f_text f, f_confidence f, f_page f, f_bbox f)"

text \<open>
  The geometric projector: the horizontal extent of the span divided evenly over its
  characters; the box of the whole span when the text is empty. \<open>projected_bbox\<close> is the
  formula in exact arithmetic. \<open>rounded_bbox\<close> is the formula in floating-point
  arithmetic, the ratio first, then its product with the width, then the sum, and
  \<open>claimed_bbox\<close> is the floating-point reading of the claim's expression
  \<^verbatim>\<open>x0 + (x1-x0)*start/len(text)\<close>, in which the product comes before the division.
\<close>

definition projected_bbox :: "string \<Rightarrow> bbox \<Rightarrow> py_match \<Rightarrow> bbox" where
  "projected_bbox text bbox m =
     (case bbox of (x0, y0, x1, y1) \<Rightarrow>
        if length text = 0 then (x0, y0, x1, y1)
        else (x0 + (x1 - x0) * real (fst m) / real (length text), y0,
              x0 + (x1 - x0) * real (snd m) / real (length text), y1))"

definition rounded_bbox :: "(real \<Rightarrow> real) \<Rightarrow> string \<Rightarrow> bbox \<Rightarrow> py_match \<Rightarrow> bbox" where
  "rounded_bbox rnd text bbox m =
     (case bbox of (x0, y0, x1, y1) \<Rightarrow>
        if length text = 0 then (x0, y0, x1, y1)
        else (rnd (x0 + rnd (rnd (x1 - x0) * rnd (real (fst m) / real (length text)))), y0,
              rnd (x0 + rnd (rnd (x1 - x0) * rnd (real (snd m) / real (length text)))), y1))"

definition claimed_bbox :: "(real \<Rightarrow> real) \<Rightarrow> string \<Rightarrow> bbox \<Rightarrow> py_match \<Rightarrow> bbox" where
  "claimed_bbox rnd text bbox m =
     (case bbox of (x0, y0, x1, y1) \<Rightarrow>
        if length text = 0 then (x0, y0, x1, y1)
        else (rnd (x0 + rnd (rnd (rnd (x1 - x0) * real (fst m)) / real (length text))), y0,
              rnd (x0 + rnd (rnd (rnd (x1 - x0) * real (snd m)) / real (length text))), y1))"

text \<open>
  The matches that become findings: for each requested category that has a pattern, in
  the order of the request, the matches of its pattern whose confidence reaches the
  threshold, in the order of the matcher.
\<close>

definition accepted_matches ::
  "finditer \<Rightarrow> string \<Rightarrow> string list \<Rightarrow> real \<Rightarrow> (string \<times> py_match) list" where
  "accepted_matches finditer text categories t =
     concat (map (\<lambda>c. case map_of PATTERNS c of
                         None \<Rightarrow> []
                       | Some pattern \<Rightarrow>
                           map (Pair c)
                             (filter (\<lambda>m. t \<le> calculate_confidence c (match_group text m))
                                (finditer pattern text)))
                 categories)"

definition pattern_finding ::
  "(real \<Rightarrow> real) \<Rightarrow> string \<Rightarrow> bbox \<Rightarrow> int \<Rightarrow> string \<times> py_match \<Rightarrow> finding" where
  "pattern_finding rnd text bbox page_num cm =
     \<lparr>f_id = [], f_category = fst cm, f_name = title (replace_underscores (fst cm)),
      f_text = match_group text (snd cm),
      f_confidence = calculate_confidence (fst cm) (match_group text (snd cm)),
      f_page = page_num, f_bbox = rounded_bbox rnd text bbox (snd cm)\<rparr>"

text \<open>
  The name candidate of an indicator: up to three whitespace-delimited tokens of the text
  between the first occurrence of the indicator and its next occurrence (the end of the
  text when there is none).
\<close>

definition name_tokens :: "string \<Rightarrow> string \<Rightarrow> string list" where
  "name_tokens indicator text =
     take 3 (split_ws (before_first indicator (after_first indicator text)))"

definition name_accepted :: "string \<Rightarrow> string \<Rightarrow> real \<Rightarrow> bool" where
  "name_accepted indicator text t =
     (contains indicator text \<and> 2 \<le> length (name_tokens indicator text) \<and>
      list_all (\<lambda>w. isupper (hd w)) (name_tokens indicator text) \<and> t \<le> 0.75)"

definition name_finding :: "string \<Rightarrow> bbox \<Rightarrow> int \<Rightarrow> string \<Rightarrow> finding" where
  "name_finding text bbox page_num indicator =
     \<lparr>f_id = [], f_category = ''NAME'', f_name = ''Name'',
      f_text = indicator @ '' '' @ join '' '' (name_tokens indicator text),
      f_confidence = 0.75, f_page = page_num, f_bbox = bbox\<rparr>"

definition accepted_indicators :: "string \<Rightarrow> string list \<Rightarrow> real \<Rightarrow> string list" where
  "accepted_indicators text categories t =
     (if ''NAME'' \<in> set categories
      then filter (\<lambda>indicator. name_accepted indicator text t) NAME_INDICATORS
      else [])"

text \<open>
  A redaction area whose \<^verbatim>\<open>x\<close> is the JSON integer \<open>10\<^sup>4\<^sup>0\<^sup>0\<close>, an area without \<^verbatim>\<open>x\<close>, and
  a well-formed area that reaches beyond a page of 612 by 792 points.
\<close>

definition overflow_area :: area where
  "overflow_area = [''page'' \<mapsto> JInt 1, ''x'' \<mapsto> JInt (10 ^ 400), ''y'' \<mapsto> JInt 0,
                    ''width'' \<mapsto> JInt 50, ''height'' \<mapsto> JInt 50]"

definition partial_area :: area where
  "partial_area = [''page'' \<mapsto> JInt 1, ''y'' \<mapsto> JInt 0,
                   ''width'' \<mapsto> JInt 50, ''height'' \<mapsto> JInt 50]"

definition wide_area :: area where
  "wide_area = [''page'' \<mapsto> JInt 1, ''x'' \<mapsto> JFloat 600, ''y'' \<mapsto> JFloat 10,
                ''width'' \<mapsto> JFloat 50, ''height'' \<mapsto> JFloat 50]"

section \<open>The checksum validator is the Luhn algorithm\<close>

lemma decimal_isdigit: "decimal c \<Longrightarrow> isdigit c"
  by (auto simp: decimal_def isdigit_def)

lemma py_int_decimal: "py_int c = (if decimal c then Inr (of_char c - 48) else Inl ValueError)"
  by (simp add: py_int_def decimal_def)

text \<open>
  The list comprehension of \<open>luhn_check\<close> raises exactly when the string holds an
  unconvertible digit.
\<close>

lemma collect_py_int:
  "collect py_int (filter isdigit s) =
     (if unconvertible s then Inl ValueError else Inr (digits_of s))"
proof (induction s)
  case Nil
  then show ?case by (simp add: unconvertible_def digits_of_def)
next
  case (Cons c s)
  show ?case
  proof (cases "isdigit c")
    case False
    then have "\<not> decimal c" using decimal_isdigit by blast
    with False Cons show ?thesis
      by (simp add: unconvertible_def digits_of_def)
  next
    case True
    show ?thesis
    proof (cases "decimal c")
      case d: True
      with True Cons show ?thesis
        by (simp add: unconvertible_def digits_of_def py_int_decimal)
    next
      case d: False
      with True show ?thesis
        by (simp add: unconvertible_def py_int_decimal)
    qed
  qed
qed

lemma luhn_step_term:
  "(if i mod 2 = 1 then (let digit = d * 2 in if digit > 9 then digit - 9 else digit) else d)
     = luhn_term i d"
proof -
  have "odd i = (i mod 2 = 1)" by presburger
  then show ?thesis by (simp add: luhn_term_def Let_def mult.commute)
qed

lemma luhn_loop_sum:
  "luhn_loop i ds acc = acc + (\<Sum>j<length ds. luhn_term (i + j) (ds ! j))"
proof (induction ds arbitrary: i acc)
  case Nil
  then show ?case by simp
next
  case (Cons d ds)
  have "luhn_loop i (d # ds) acc = luhn_loop (i + 1) ds (acc + luhn_term i d)"
    by (simp only: luhn_loop.simps luhn_step_term)
  also have "\<dots> = acc + luhn_term i d + (\<Sum>j<length ds. luhn_term (i + 1 + j) (ds ! j))"
    by (rule Cons.IH)
  also have "\<dots> = acc + (\<Sum>j<length (d # ds). luhn_term (i + j) ((d # ds) ! j))"
    by (simp add: sum.lessThan_Suc_shift del: sum.lessThan_Suc)
  finally show ?case .
qed

lemma luhn_spec_sum_loop: "luhn_spec_sum ds = luhn_loop 0 (rev ds) 0"
  by (simp add: luhn_loop_sum luhn_spec_sum_def)

lemma luhn_check_spec:
  "luhn_check s =
     (\<not> unconvertible s \<and>
      (let ds = digits_of s
       in 13 \<le> length ds \<and> length ds \<le> 19 \<and> luhn_spec_sum ds mod 10 = 0))"
  by (auto simp: luhn_check_def luhn_try_def collect_py_int luhn_loop_sum luhn_spec_sum_def
        Let_def)

lemma luhn_check_valid_example: "luhn_check ''4532015112830366''"
  by (simp add: luhn_check_def luhn_try_def isdigit_def py_int_def)

lemma luhn_check_invalid_example: "\<not> luhn_check ''4532015112830367''"
  by (simp add: luhn_check_def luhn_try_def isdigit_def py_int_def)

text \<open>
  Claim C2, as amended. For every input string, \<open>luhn_check\<close> returns false when the string
  holds a character that \<^verbatim>\<open>str.isdigit\<close> accepts and \<^verbatim>\<open>int()\<close> rejects (a superscript
  digit): the conversion raises and the exception is caught. Otherwise it keeps only the
  digit characters, returns false when fewer than 13 or more than 19 digits remain, and
  else returns true exactly when the sum in which every second digit counted from the
  rightmost is doubled (less 9 when the doubled digit exceeds 9) is divisible by 10. The
  string 4532015112830366 is valid and 4532015112830367 is not. The result is always a
  truth value: no exception leaves the function.
\<close>

theorem luhn_check_correct:
  "(\<forall>s. luhn_check s =
          (\<not> unconvertible s \<and>
           (let ds = digits_of s
            in 13 \<le> length ds \<and> length ds \<le> 19 \<and> luhn_spec_sum ds mod 10 = 0)))
   \<and> luhn_check ''4532015112830366''
   \<and> \<not> luhn_check ''4532015112830367''"
  using luhn_check_spec luhn_check_valid_example luhn_check_invalid_example by blast

text \<open>
  The claim as it was stated fails on the string made of the superscripts 3, 2, 3 and the
  valid number 4532015112830366: the function returns false, although the decimal digits
  of the string are the 16 digits of the valid number, and although its 19 \<^verbatim>\<open>isdigit\<close>
  characters, read as the digits 3, 2, 3, 4, 5, ..., also have a sum divisible by 10.
\<close>

theorem luhn_check_correct_counterexample:
  "\<not> luhn_check superscript_card
   \<and> (let ds = digits_of superscript_card
      in 13 \<le> length ds \<and> length ds \<le> 19 \<and> luhn_spec_sum ds mod 10 = 0)
   \<and> (let ds = map digit_value (filter isdigit superscript_card)
      in 13 \<le> length ds \<and> length ds \<le> 19 \<and> luhn_spec_sum ds mod 10 = 0)"
proof -
  have 1: "unconvertible superscript_card"
    by (simp add: unconvertible_def superscript_card_def isdigit_def decimal_def)
  have 2: "digits_of superscript_card = [4, 5, 3, 2, 0, 1, 5, 1, 1, 2, 8, 3, 0, 3, 6, 6]"
    by (simp add: digits_of_def superscript_card_def decimal_def)
  have 3: "map digit_value (filter isdigit superscript_card) =
             [3, 2, 3, 4, 5, 3, 2, 0, 1, 5, 1, 1, 2, 8, 3, 0, 3, 6, 6]"
    by (simp add: superscript_card_def isdigit_def digit_value_def)
  show ?thesis
    by (simp add: luhn_check_spec 1 2 3 luhn_spec_sum_loop)
qed

section \<open>The confidence of an e-mail address\<close>

lemma calculate_confidence_NAME: "calculate_confidence ''NAME'' s = 0.75"
  by (simp add: calculate_confidence_def)

lemma calculate_confidence_EMAIL:
  "calculate_confidence ''EMAIL'' text =
     (if contains ''gmail.com'' (lower text) \<or> contains ''yahoo.com'' (lower text) \<or>
         contains ''outlook.com'' (lower text) \<or> contains ''hotmail.com'' (lower text)
      then 0.95 else 0.90)"
  by (simp add: calculate_confidence_def)

lemma map_of_zip_None:
  "length xs = length ys \<Longrightarrow> c \<notin> set xs \<Longrightarrow> map_of (zip xs ys) c = None"
  by (metis map_fst_zip map_of_eq_None_iff set_map)

lemma lower_chr_not_upper: "\<not> isupper c \<Longrightarrow> lower_chr c = c"
proof -
  assume "\<not> isupper c"
  then have nu: "c \<notin> set (''ABCDEFGHIJKLMNOPQRSTUVWXYZ'' @ latin1_upper)"
    unfolding isupper_def .
  have len: "length (''ABCDEFGHIJKLMNOPQRSTUVWXYZ'' @ latin1_upper) =
             length (''abcdefghijklmnopqrstuvwxyz'' @ latin1_lower)"
    by (simp add: latin1_upper_def latin1_lower_def)
  have "map_of (zip (''ABCDEFGHIJKLMNOPQRSTUVWXYZ'' @ latin1_upper)
                       (''abcdefghijklmnopqrstuvwxyz'' @ latin1_lower)) c = None"
    using len nu by (rule map_of_zip_None)
  then show ?thesis by (simp only: lower_chr_def option.case)
qed

lemma lower_not_upper: "list_all (\<lambda>c. \<not> isupper c) s \<Longrightarrow> lower s = s"
  by (induction s) (simp_all add: lower_def lower_chr_not_upper)

lemma lower_examples:
  "lower ''user@gmail.com'' = ''user@gmail.com''"
  "lower ''user@unknown-domain.xyz'' = ''user@unknown-domain.xyz''"
  "lower ''gmail.com@example.org'' = ''gmail.com@example.org''"
  "lower ''example.org'' = ''example.org''"
  by (rule lower_not_upper, simp add: isupper_def latin1_upper_def)+

lemma calculate_confidence_EMAIL_examples:
  "calculate_confidence ''EMAIL'' ''user@gmail.com'' = 0.95"
  "calculate_confidence ''EMAIL'' ''user@unknown-domain.xyz'' = 0.90"
  by (simp_all add: calculate_confidence_EMAIL lower_examples)

text \<open>
  Claim C3. For a matched text of category EMAIL, \<open>calculate_confidence\<close> returns 0.95 if
  the domain of the address is one of gmail.com, yahoo.com, outlook.com, hotmail.com, and
  0.90 otherwise. The code looks for the four names anywhere in the lower-cased address,
  not in its domain: the address \<^verbatim>\<open>gmail.com@example.org\<close>, whose domain is
  \<^verbatim>\<open>example.org\<close>, scores 0.95.
\<close>

theorem calculate_confidence_email_substring:
  "calculate_confidence ''EMAIL'' ''gmail.com@example.org'' = 0.95
   \<and> email_domain ''gmail.com@example.org'' = ''example.org''
   \<and> lower ''example.org'' \<notin> set [''gmail.com'', ''yahoo.com'', ''outlook.com'', ''hotmail.com'']"
  by (simp add: calculate_confidence_EMAIL email_domain_def lower_examples)

section \<open>Splitting strings\<close>

lemma before_first_absent: "\<not> contains sep s \<Longrightarrow> before_first sep s = s"
  by (induction s) auto

lemma split_from_unfold:
  "sep \<noteq> [] \<Longrightarrow>
   split_from sep cur s =
     (if contains sep s then (cur @ before_first sep s) # split_from sep [] (after_first sep s)
      else [cur @ s])"
proof (induction sep cur s rule: split_from.induct)
  case (1 sep cur)
  then show ?case by simp
next
  case (2 sep cur c cs)
  then show ?case by (cases "startswith (c # cs) sep") simp_all
qed

lemma split_from_hd:
  "sep \<noteq> [] \<Longrightarrow> hd (split_from sep [] s) = before_first sep s"
  by (subst split_from_unfold) (simp_all add: before_first_absent)

text \<open>
  Where the separator occurs, \<^verbatim>\<open>text.split(sep)\<close> has a second piece, and it is the text
  between the first occurrence and the next one.
\<close>

lemma split_second:
  assumes "sep \<noteq> []" "contains sep s"
  shows "length (split sep s) > 1 \<and> split sep s ! 1 = before_first sep (after_first sep s)"
proof -
  have s: "split sep s = before_first sep s # split_from sep [] (after_first sep s)"
    unfolding split_def using assms by (subst split_from_unfold) simp_all
  have ne: "split_from sep [] (after_first sep s) \<noteq> []"
    using assms(1) by (subst split_from_unfold) simp_all
  have "split sep s ! 1 = hd (split_from sep [] (after_first sep s))"
    using ne by (simp add: s hd_conv_nth)
  with ne show ?thesis
    using assms(1) by (simp add: s split_from_hd Suc_lessI)
qed

lemma split_ws_from_nonempty: "w \<in> set (split_ws_from cur s) \<Longrightarrow> w \<noteq> []"
  by (induction s arbitrary: cur) (auto split: if_splits)

lemma split_ws_from_leading:
  "split_ws_from [] (dropWhile isspace s) = split_ws_from [] s"
  by (induction s) auto

lemma split_ws_from_spaces:
  "\<forall>c \<in> set ws. isspace c \<Longrightarrow> split_ws_from cur ws = (if cur = [] then [] else [cur])"
  by (induction ws arbitrary: cur) auto

lemma split_ws_from_trailing:
  "\<forall>c \<in> set ws. isspace c \<Longrightarrow> split_ws_from cur (s @ ws) = split_ws_from cur s"
  by (induction s arbitrary: cur) (auto simp: split_ws_from_spaces)

lemma split_ws_strip: "split_ws (strip s) = split_ws s"
proof -
  let ?t = "dropWhile isspace s"
  have "?t = rev (dropWhile isspace (rev ?t)) @ rev (takeWhile isspace (rev ?t))"
    by (metis rev_append rev_rev_ident takeWhile_dropWhile_id)
  moreover have "\<forall>c \<in> set (rev (takeWhile isspace (rev ?t))). isspace c"
    by (auto dest: set_takeWhileD)
  ultimately have "split_ws_from [] ?t = split_ws_from [] (rev (dropWhile isspace (rev ?t)))"
    by (metis split_ws_from_trailing)
  then show ?thesis
    by (simp add: split_ws_def strip_def split_ws_from_leading)
qed

section \<open>What the two loops of the detector append\<close>

lemma anonymous_fields:
  "f_category (anonymous f) = f_category f" "f_name (anonymous f) = f_name f"
  "f_text (anonymous f) = f_text f" "f_confidence (anonymous f) = f_confidence f"
  "f_page (anonymous f) = f_page f" "f_bbox (anonymous f) = f_bbox f"
  by (simp_all add: anonymous_def)

lemma content_anonymous: "content (anonymous f) = content f"
  by (simp add: content_def anonymous_fields)

lemma map_content_anonymous: "map content (map anonymous fs) = map content fs"
  by (simp add: content_anonymous)

lemma match_step_anon:
  "map anonymous (fst (match_step rnd uuid text bbox page_num t c m st)) =
     map anonymous (fst st) @
       (if t \<le> calculate_confidence c (match_group text m)
        then [pattern_finding rnd text bbox page_num (c, m)] else [])"
  by (cases bbox)
     (simp add: match_step_def Let_def anonymous_def pattern_finding_def rounded_bbox_def)

lemma fold_match_step_anon:
  "map anonymous (fst (fold (match_step rnd uuid text bbox page_num t c) ms st)) =
     map anonymous (fst st) @
       map (pattern_finding rnd text bbox page_num)
         (map (Pair c) (filter (\<lambda>m. t \<le> calculate_confidence c (match_group text m)) ms))"
proof (induction ms arbitrary: st)
  case Nil
  then show ?case by simp
next
  case (Cons m ms)
  show ?case
    by (simp add: Cons.IH match_step_anon)
qed

lemma category_step_anon:
  "map anonymous (fst (category_step rnd finditer uuid text bbox page_num t c st)) =
     map anonymous (fst st) @
       map (pattern_finding rnd text bbox page_num) (accepted_matches finditer text [c] t)"
  by (simp add: category_step_def accepted_matches_def fold_match_step_anon split: option.split)

lemma accepted_matches_Cons:
  "accepted_matches finditer text (c # cs) t =
     accepted_matches finditer text [c] t @ accepted_matches finditer text cs t"
  by (simp add: accepted_matches_def)

lemma fold_category_step_anon:
  "map anonymous (fst (fold (category_step rnd finditer uuid text bbox page_num t) cs st)) =
     map anonymous (fst st) @
       map (pattern_finding rnd text bbox page_num) (accepted_matches finditer text cs t)"
proof (induction cs arbitrary: st)
  case Nil
  then show ?case by (simp add: accepted_matches_def)
next
  case (Cons c cs)
  show ?case
    by (simp add: Cons.IH category_step_anon accepted_matches_Cons [of _ _ c cs])
qed

lemma words_after_tokens:
  assumes "indicator \<noteq> []" "contains indicator text"
  shows "take 3 (split_ws (strip (split indicator text ! 1))) = name_tokens indicator text"
  using split_second [OF assms] by (simp add: split_ws_strip name_tokens_def)

lemma name_tokens_nonempty:
  "filter (\<lambda>w. w \<noteq> []) (name_tokens indicator text) = name_tokens indicator text"
proof -
  have "\<forall>w \<in> set (name_tokens indicator text). w \<noteq> []"
    by (auto simp: name_tokens_def split_ws_def dest: in_set_takeD split_ws_from_nonempty)
  then show ?thesis by (simp add: filter_id_conv)
qed

lemma indicator_step_anon:
  assumes "indicator \<noteq> []"
  shows "map anonymous (fst (indicator_step uuid text bbox page_num t indicator st)) =
     map anonymous (fst st) @
       (if name_accepted indicator text t then [name_finding text bbox page_num indicator] else [])"
proof (cases "contains indicator text")
  case False
  then show ?thesis by (simp add: indicator_step_def name_accepted_def)
next
  case True
  note sp = split_second [OF assms True] words_after_tokens [OF assms True]
  show ?thesis
    using True sp
    by (simp add: indicator_step_def Let_def name_accepted_def name_finding_def anonymous_def
          calculate_confidence_NAME name_tokens_nonempty)
qed

lemma fold_indicator_step_anon:
  assumes "\<forall>i \<in> set inds. i \<noteq> []"
  shows "map anonymous (fst (fold (indicator_step uuid text bbox page_num t) inds st)) =
     map anonymous (fst st) @
       map (name_finding text bbox page_num) (filter (\<lambda>i. name_accepted i text t) inds)"
  using assms
proof (induction inds arbitrary: st)
  case Nil
  then show ?case by simp
next
  case (Cons i inds)
  then show ?case
    by (simp add: indicator_step_anon)
qed

lemma NAME_INDICATORS_nonempty: "\<forall>i \<in> set NAME_INDICATORS. i \<noteq> []"
  by (simp add: NAME_INDICATORS_def)

text \<open>
  Up to the identifiers, a run returns the findings of the accepted pattern matches
  followed by the findings of the accepted indicators.
\<close>

lemma anon_detect_in_text:
  "map anonymous (detect_in_text rnd finditer uuid text bbox page_num categories t) =
     map (pattern_finding rnd text bbox page_num) (accepted_matches finditer text categories t) @
     map (name_finding text bbox page_num) (accepted_indicators text categories t)"
  by (simp add: detect_in_text_def Let_def fold_category_step_anon
        fold_indicator_step_anon [OF NAME_INDICATORS_nonempty] accepted_indicators_def)

lemma accepted_matchesD:
  assumes "(c, m) \<in> set (accepted_matches finditer text categories t)"
  shows "t \<le> calculate_confidence c (match_group text m)" and "map_of PATTERNS c \<noteq> None"
proof -
  from assms obtain c' where c': "c' \<in> set categories"
    and "(c, m) \<in> set (case map_of PATTERNS c' of None \<Rightarrow> []
            | Some pattern \<Rightarrow> map (Pair c')
                (filter (\<lambda>m. t \<le> calculate_confidence c' (match_group text m))
                   (finditer pattern text)))"
    by (auto simp: accepted_matches_def)
  then have "c' = c \<and> map_of PATTERNS c' \<noteq> None \<and>
             t \<le> calculate_confidence c' (match_group text m)"
    by (cases "map_of PATTERNS c'") auto
  then show "t \<le> calculate_confidence c (match_group text m)" and "map_of PATTERNS c \<noteq> None"
    by blast+
qed

lemma PATTERNS_NAME: "map_of PATTERNS ''NAME'' = None"
  by (simp add: PATTERNS_def)

lemma cases_detect_in_text:
  assumes "f \<in> set (detect_in_text rnd finditer uuid text bbox page_num categories t)"
  shows "(\<exists>cm \<in> set (accepted_matches finditer text categories t).
            anonymous f = pattern_finding rnd text bbox page_num cm) \<or>
         (\<exists>i \<in> set (accepted_indicators text categories t).
            anonymous f = name_finding text bbox page_num i)"
proof -
  from assms have "anonymous f \<in>
      set (map anonymous (detect_in_text rnd finditer uuid text bbox page_num categories t))"
    by simp
  then show ?thesis
    unfolding anon_detect_in_text by auto
qed

lemma pattern_finding_not_NAME:
  assumes "cm \<in> set (accepted_matches finditer text categories t)"
  shows "f_category (pattern_finding rnd text bbox page_num cm) \<noteq> ''NAME''"
proof -
  obtain c m where "cm = (c, m)" by (cases cm)
  with assms accepted_matchesD(2) PATTERNS_NAME show ?thesis
    by (fastforce simp: pattern_finding_def)
qed

lemma filter_map_anonymous:
  "map anonymous (filter (\<lambda>f. P (f_category f)) fs) =
   filter (\<lambda>f. P (f_category f)) (map anonymous fs)"
  by (induction fs) (simp_all add: anonymous_fields)

lemma anon_pattern_part:
  "map anonymous (filter (\<lambda>f. f_category f \<noteq> ''NAME'')
      (detect_in_text rnd finditer uuid text bbox page_num categories t)) =
   map (pattern_finding rnd text bbox page_num) (accepted_matches finditer text categories t)"
proof -
  have 1: "filter (\<lambda>f. f_category f \<noteq> ''NAME'')
             (map (pattern_finding rnd text bbox page_num)
                (accepted_matches finditer text categories t)) =
           map (pattern_finding rnd text bbox page_num) (accepted_matches finditer text categories t)"
    by (simp add: filter_id_conv pattern_finding_not_NAME)
  have 2: "filter (\<lambda>f. f_category f \<noteq> ''NAME'')
             (map (name_finding text bbox page_num) (accepted_indicators text categories t)) = []"
    by (simp add: filter_empty_conv name_finding_def)
  have "map anonymous (filter (\<lambda>f. f_category f \<noteq> ''NAME'')
      (detect_in_text rnd finditer uuid text bbox page_num categories t)) =
    filter (\<lambda>f. f_category f \<noteq> ''NAME'')
      (map anonymous (detect_in_text rnd finditer uuid text bbox page_num categories t))"
    by (rule filter_map_anonymous [of "\<lambda>c. c \<noteq> ''NAME''"])
  then show ?thesis
    by (simp only: anon_detect_in_text filter_append 1 2 append_Nil2)
qed

lemma anon_name_part:
  "map anonymous (filter (\<lambda>f. f_category f = ''NAME'')
      (detect_in_text rnd finditer uuid text bbox page_num categories t)) =
   map (name_finding text bbox page_num) (accepted_indicators text categories t)"
proof -
  have 1: "filter (\<lambda>f. f_category f = ''NAME'')
             (map (pattern_finding rnd text bbox page_num)
                (accepted_matches finditer text categories t)) = []"
    by (simp add: filter_empty_conv pattern_finding_not_NAME)
  have 2: "filter (\<lambda>f. f_category f = ''NAME'')
             (map (name_finding text bbox page_num) (accepted_indicators text categories t)) =
           map (name_finding text bbox page_num) (accepted_indicators text categories t)"
    by (simp add: filter_id_conv name_finding_def)
  have "map anonymous (filter (\<lambda>f. f_category f = ''NAME'')
      (detect_in_text rnd finditer uuid text bbox page_num categories t)) =
    filter (\<lambda>f. f_category f = ''NAME'')
      (map anonymous (detect_in_text rnd finditer uuid text bbox page_num categories t))"
    by (rule filter_map_anonymous [of "\<lambda>c. c = ''NAME''"])
  then show ?thesis
    by (simp only: anon_detect_in_text filter_append 1 2 append_Nil)
qed

lemma category_step_unknown:
  "c \<notin> set (map fst PATTERNS) \<Longrightarrow> category_step rnd finditer uuid text bbox page_num t c st = st"
proof -
  assume "c \<notin> set (map fst PATTERNS)"
  then have "map_of PATTERNS c = None"
    by (simp add: map_of_eq_None_iff)
  then show ?thesis by (simp add: category_step_def)
qed

section \<open>The findings of a run\<close>

text \<open>Sample runs, used to instantiate the theorems below.\<close>

lemma sample_lookup:
  "map_of PATTERNS ''SSN'' \<noteq> None" "map_of PATTERNS ''ZIP_CODE'' \<noteq> None"
  "map_of PATTERNS ''PASSPORT'' = None"
  by (simp_all add: PATTERNS_def)

lemma sample_confidence:
  "calculate_confidence ''SSN'' s = 0.95" "calculate_confidence ''ZIP_CODE'' s = 0.82"
  by (simp_all add: calculate_confidence_def)

lemma rounded_bbox_sample:
  "rounded_bbox round_double ''0123456789'' (0, 0, 100, 10) (2, 5) = (20, 0, 50, 10)"
  by (simp add: rounded_bbox_def round_double_def pow2_def round_half_even_def Let_def)

lemma rounded_bbox_uneven:
  "rounded_bbox round_double ''SSN number is 123-45-6789'' (0, 0, 100, 10) (14, 25) =
     (56 + 1 / 2 ^ 47, 0, 100, 10)"
  by (simp add: rounded_bbox_def round_double_def pow2_def round_half_even_def Let_def)

lemma claimed_bbox_uneven:
  "claimed_bbox round_double ''SSN number is 123-45-6789'' (0, 0, 100, 10) (14, 25) =
     (56, 0, 100, 10)"
  by (simp add: claimed_bbox_def round_double_def pow2_def round_half_even_def Let_def)

lemma sample_run:
  "map content
     (detect_in_text round_double (\<lambda>pattern s. [(2, 5)]) (\<lambda>k. ''1a2b3c4d'') ''0123456789''
        (0, 0, 100, 10) 1 [''ZIP_CODE'', ''SSN''] 0.9) =
   [(''SSN'', ''Ssn'', ''234'', 0.95, 1, (20, 0, 50, 10))]"
proof -
  obtain p q where "map_of PATTERNS ''ZIP_CODE'' = Some p" "map_of PATTERNS ''SSN'' = Some q"
    using sample_lookup by blast
  then have "accepted_matches (\<lambda>pattern s. [(2, 5)]) ''0123456789'' [''ZIP_CODE'', ''SSN''] 0.9 =
             [(''SSN'', (2, 5))]"
    by (simp add: accepted_matches_def sample_confidence)
  moreover have "accepted_indicators ''0123456789'' [''ZIP_CODE'', ''SSN''] 0.9 = []"
    by (simp add: accepted_indicators_def)
  moreover have "title (replace_underscores ''SSN'') = ''Ssn''"
    by (simp add: title_def replace_underscores_def islower_def isupper_def latin1_upper_def
          latin1_lower_def lower_chr_def)
  ultimately have "map anonymous
     (detect_in_text round_double (\<lambda>pattern s. [(2, 5)]) (\<lambda>k. ''1a2b3c4d'') ''0123456789''
        (0, 0, 100, 10) 1 [''ZIP_CODE'', ''SSN''] 0.9) =
     [\<lparr>f_id = [], f_category = ''SSN'', f_name = ''Ssn'', f_text = ''234'',
       f_confidence = 0.95, f_page = 1, f_bbox = (20, 0, 50, 10)\<rparr>]"
    by (simp add: anon_detect_in_text pattern_finding_def rounded_bbox_sample sample_confidence
          match_group_def)
  from arg_cong [OF this, of "map content"] show ?thesis
    unfolding map_content_anonymous by (simp add: content_def)
qed

lemma sample_name_run:
  "detect_in_text round_double (\<lambda>pattern s. []) (\<lambda>k. ''1a2b3c4d'') ''see Prof. Ada Byron'' (5, 6, 70, 8) 3
        [''NAME''] 0.7 =
   [\<lparr>f_id = ''NAME_3_1a2b3c4d'', f_category = ''NAME'', f_name = ''Name'',
     f_text = ''Prof. Ada Byron'', f_confidence = 0.75, f_page = 3, f_bbox = (5, 6, 70, 8)\<rparr>]"
  by (simp add: split_ws_def isspace_def isupper_def latin1_upper_def detect_in_text_def category_step_def
        PATTERNS_def NAME_INDICATORS_def indicator_step_def split_def strip_def
        calculate_confidence_def Let_def str_int_def)

lemma sample_contains:
  "\<not> contains ''Mr.'' ''Mrs. Jane Doe Dr. Ann''" "contains ''Mrs.'' ''Mrs. Jane Doe Dr. Ann''"
  "\<not> contains ''Ms.'' ''Mrs. Jane Doe Dr. Ann''" "contains ''Dr.'' ''Mrs. Jane Doe Dr. Ann''"
  "\<not> contains ''Prof.'' ''Mrs. Jane Doe Dr. Ann''" "\<not> contains ''Miss'' ''Mrs. Jane Doe Dr. Ann''"
  by simp_all

lemma sample_tokens:
  "name_tokens ''Mrs.'' ''Mrs. Jane Doe Dr. Ann'' = [''Jane'', ''Doe'', ''Dr.'']"
  "name_tokens ''Dr.'' ''Mrs. Jane Doe Dr. Ann'' = [''Ann'']"
  by (simp_all add: name_tokens_def split_ws_def isspace_def)

text \<open>
  Claim C1. For every call of \<open>detect_in_text\<close>, with any text, bounding box, page number,
  requested categories and confidence threshold \<open>t\<close>, every finding of the returned list
  has a confidence of at least \<open>t\<close>: a match that scores below \<open>t\<close> is not in the output.
\<close>

theorem detect_in_text_confidence_threshold:
  "\<forall>f \<in> set (detect_in_text rnd finditer uuid text bbox page_num categories t).
     t \<le> f_confidence f"
proof
  fix f assume "f \<in> set (detect_in_text rnd finditer uuid text bbox page_num categories t)"
  from cases_detect_in_text [OF this] show "t \<le> f_confidence f"
  proof
    assume "\<exists>cm \<in> set (accepted_matches finditer text categories t).
            anonymous f = pattern_finding rnd text bbox page_num cm"
    then obtain c m where cm: "(c, m) \<in> set (accepted_matches finditer text categories t)"
      and f: "anonymous f = pattern_finding rnd text bbox page_num (c, m)" by auto
    from cm have "t \<le> calculate_confidence c (match_group text m)"
      by (rule accepted_matchesD)
    moreover have "f_confidence f = calculate_confidence c (match_group text m)"
      using arg_cong [OF f, of f_confidence] by (simp add: anonymous_fields pattern_finding_def)
    ultimately show ?thesis by simp
  next
    assume "\<exists>i \<in> set (accepted_indicators text categories t).
            anonymous f = name_finding text bbox page_num i"
    then obtain i where i: "i \<in> set (accepted_indicators text categories t)"
      and f: "anonymous f = name_finding text bbox page_num i" by auto
    from i have "t \<le> 0.75"
      by (auto simp: accepted_indicators_def name_accepted_def split: if_splits)
    moreover have "f_confidence f = 0.75"
      using arg_cong [OF f, of f_confidence] by (simp add: anonymous_fields name_finding_def)
    ultimately show ?thesis by simp
  qed
qed

theorem detect_in_text_confidence_threshold_witness:
  "map f_confidence
     (detect_in_text round_double (\<lambda>pattern s. [(2, 5)]) (\<lambda>k. ''1a2b3c4d'') ''0123456789'' (0, 0, 100, 10) 1
        [''ZIP_CODE'', ''SSN''] 0.9) = [0.95]
   \<and> (0.9 :: real) \<le> 0.95"
proof -
  have "map f_confidence
     (detect_in_text round_double (\<lambda>pattern s. [(2, 5)]) (\<lambda>k. ''1a2b3c4d'') ''0123456789'' (0, 0, 100, 10) 1
        [''ZIP_CODE'', ''SSN''] 0.9) = [0.95]"
    using arg_cong [OF sample_run, of "map (\<lambda>c. fst (snd (snd (snd c))))"]
    by (simp add: content_def comp_def)
  then obtain f where
    f: "detect_in_text round_double (\<lambda>pattern s. [(2, 5)]) (\<lambda>k. ''1a2b3c4d'') ''0123456789'' (0, 0, 100, 10) 1
        [''ZIP_CODE'', ''SSN''] 0.9 = [f]" and c: "f_confidence f = 0.95"
    by (auto simp: map_eq_Cons_conv)
  from detect_in_text_confidence_threshold
    [of round_double "\<lambda>pattern s. [(2, 5)]" "\<lambda>k. ''1a2b3c4d''" "''0123456789''" "(0, 0, 100, 10)" 1
        "[''ZIP_CODE'', ''SSN'']" "0.9"]
  have "(0.9 :: real) \<le> f_confidence f"
    by (simp add: f)
  with f c show ?thesis by simp
qed

text \<open>
  Claim C6, as amended. The findings of the pattern categories are, in order, those of
  the accepted matches, and the finding of a match with offsets \<open>(start, end)\<close> in a span
  with text \<open>text\<close> and box \<open>[x0, y0, x1, y1]\<close> has the box
  \<open>[x0 + (x1 - x0) * (start / len(text)), y0, x0 + (x1 - x0) * (end / len(text)), y1]\<close>
  computed in floating-point arithmetic in this order, every operation rounded: the
  ratio first, then its product with the width, then the sum. When the text is empty the
  finding has the box of the span unchanged. In exact arithmetic the box is that of the
  formula \<open>x0 + (x1 - x0) * start / len(text)\<close>. In doubles, a text of length 10 with box
  \<open>[0, 0, 100, 10]\<close> and offsets \<open>(2, 5)\<close> projects to \<open>[20, 0, 50, 10]\<close>.
\<close>

theorem detect_in_text_projection:
  "map (\<lambda>f. (f_category f, f_text f, f_bbox f))
     (filter (\<lambda>f. f_category f \<noteq> ''NAME'')
        (detect_in_text rnd finditer uuid text (x0, y0, x1, y1) page_num categories t)) =
   map (\<lambda>(c, start, end).
          (c, match_group text (start, end),
           if length text = 0 then (x0, y0, x1, y1)
           else (rnd (x0 + rnd (rnd (x1 - x0) * rnd (real start / real (length text)))), y0,
                 rnd (x0 + rnd (rnd (x1 - x0) * rnd (real end / real (length text)))), y1)))
     (accepted_matches finditer text categories t)
   \<and>
   rounded_bbox (\<lambda>x. x) text (x0, y0, x1, y1) (start, end) =
     projected_bbox text (x0, y0, x1, y1) (start, end)
   \<and>
   map f_bbox (detect_in_text round_double (\<lambda>pattern s. [(2, 5)]) uuid ''0123456789''
                 (0, 0, 100, 10) page_num [''ZIP_CODE''] 0.7) = [(20, 0, 50, 10)]"
proof (intro conjI)
  let ?fs = "filter (\<lambda>f. f_category f \<noteq> ''NAME'')
        (detect_in_text rnd finditer uuid text (x0, y0, x1, y1) page_num categories t)"
  let ?g = "\<lambda>f. (f_category f, f_text f, f_bbox f)"
  have "map ?g ?fs = map ?g (map anonymous ?fs)"
    by (simp add: anonymous_fields)
  also have "\<dots> = map ?g (map (pattern_finding rnd text (x0, y0, x1, y1) page_num)
                      (accepted_matches finditer text categories t))"
    by (simp only: anon_pattern_part)
  also have "\<dots> = map (\<lambda>(c, start, end).
          (c, match_group text (start, end),
           if length text = 0 then (x0, y0, x1, y1)
           else (rnd (x0 + rnd (rnd (x1 - x0) * rnd (real start / real (length text)))), y0,
                 rnd (x0 + rnd (rnd (x1 - x0) * rnd (real end / real (length text)))), y1)))
     (accepted_matches finditer text categories t)"
    by (auto simp: pattern_finding_def rounded_bbox_def)
  finally show "map ?g ?fs = \<dots>" .
next
  show "rounded_bbox (\<lambda>x. x) text (x0, y0, x1, y1) (start, end) =
     projected_bbox text (x0, y0, x1, y1) (start, end)"
    by (simp add: rounded_bbox_def projected_bbox_def)
next
  obtain p where p: "map_of PATTERNS ''ZIP_CODE'' = Some p"
    using sample_lookup by blast
  have "map f_bbox (map anonymous
          (detect_in_text round_double (\<lambda>pattern s. [(2, 5)]) uuid ''0123456789''
             (0, 0, 100, 10) page_num [''ZIP_CODE''] 0.7)) = [(20, 0, 50, 10)]"
    by (simp add: anon_detect_in_text accepted_matches_def accepted_indicators_def p
          sample_confidence pattern_finding_def rounded_bbox_sample)
  then show "map f_bbox (detect_in_text round_double (\<lambda>pattern s. [(2, 5)]) uuid ''0123456789''
                 (0, 0, 100, 10) page_num [''ZIP_CODE''] 0.7) = [(20, 0, 50, 10)]"
    by (simp add: anonymous_fields comp_def)
qed

text \<open>
  The claim as it was stated fails in doubles. In \<^verbatim>\<open>SSN number is 123-45-6789\<close>, of length
  25, the SSN pattern matches at offsets \<open>(14, 25)\<close>. With the box \<open>[0, 0, 100, 10]\<close> the
  finding's left edge is \<open>100 * (14 / 25)\<close>, the double above 56, where the claim's formula
  \<open>x0 + (x1 - x0) * start / len(text)\<close> gives 56, in exact arithmetic and in doubles alike.
\<close>

theorem detect_in_text_projection_counterexample:
  "map f_bbox
     (detect_in_text round_double (\<lambda>pattern s. [(14, 25)]) (\<lambda>k. ''1a2b3c4d'')
        ''SSN number is 123-45-6789'' (0, 0, 100, 10) 1 [''SSN''] 0.7) =
     [(56 + 1 / 2 ^ 47, 0, 100, 10)]
   \<and> projected_bbox ''SSN number is 123-45-6789'' (0, 0, 100, 10) (14, 25) = (56, 0, 100, 10)
   \<and> claimed_bbox round_double ''SSN number is 123-45-6789'' (0, 0, 100, 10) (14, 25) =
       (56, 0, 100, 10)
   \<and> (56 + 1 / 2 ^ 47 :: real) \<noteq> 56"
proof (intro conjI)
  obtain p where p: "map_of PATTERNS ''SSN'' = Some p"
    using sample_lookup by blast
  have "map f_bbox (map anonymous
     (detect_in_text round_double (\<lambda>pattern s. [(14, 25)]) (\<lambda>k. ''1a2b3c4d'')
        ''SSN number is 123-45-6789'' (0, 0, 100, 10) 1 [''SSN''] 0.7)) =
     [(56 + 1 / 2 ^ 47, 0, 100, 10)]"
    by (simp add: anon_detect_in_text accepted_matches_def accepted_indicators_def p
          sample_confidence pattern_finding_def rounded_bbox_uneven)
  then show "map f_bbox
     (detect_in_text round_double (\<lambda>pattern s. [(14, 25)]) (\<lambda>k. ''1a2b3c4d'')
        ''SSN number is 123-45-6789'' (0, 0, 100, 10) 1 [''SSN''] 0.7) =
     [(56 + 1 / 2 ^ 47, 0, 100, 10)]"
    by (simp add: anonymous_fields comp_def)
next
  show "projected_bbox ''SSN number is 123-45-6789'' (0, 0, 100, 10) (14, 25) = (56, 0, 100, 10)"
    by (simp add: projected_bbox_def)
next
  show "claimed_bbox round_double ''SSN number is 123-45-6789'' (0, 0, 100, 10) (14, 25) =
       (56, 0, 100, 10)"
    by (rule claimed_bbox_uneven)
next
  show "(56 + 1 / 2 ^ 47 :: real) \<noteq> 56" by simp
qed

text \<open>
  Claim C7, as amended. When NAME is among the requested categories, the NAME findings
  of a run are, in the order of the indicators, one finding for each indicator (Mr., Mrs.,
  Ms., Dr., Prof., Miss) that occurs in the text, whose candidate has at least two tokens,
  all starting with an upper-case letter, and for which the NAME confidence 0.75 reaches the
  threshold; the candidate of an indicator is made of up to three whitespace-delimited
  tokens of the text between the first occurrence of the indicator and its next
  occurrence (the end of the text when it occurs once). The text of the finding is the
  indicator, a blank and the tokens joined by blanks. When NAME is not requested there is
  no NAME finding.
\<close>

theorem detect_in_text_name_heuristic:
  "map content (filter (\<lambda>f. f_category f = ''NAME'')
      (detect_in_text rnd finditer uuid text bbox page_num categories t)) =
   (if ''NAME'' \<in> set categories
    then map (\<lambda>indicator.
                (''NAME'', ''Name'',
                 indicator @ '' '' @ join '' '' (name_tokens indicator text),
                 0.75, page_num, bbox))
           (filter (\<lambda>indicator.
                      contains indicator text \<and>
                      2 \<le> length (name_tokens indicator text) \<and>
                      list_all (\<lambda>w. isupper (hd w)) (name_tokens indicator text) \<and>
                      t \<le> 0.75)
              NAME_INDICATORS)
    else [])"
proof -
  let ?fs = "filter (\<lambda>f. f_category f = ''NAME'')
      (detect_in_text rnd finditer uuid text bbox page_num categories t)"
  have "map content ?fs = map content (map anonymous ?fs)"
    by (simp only: map_content_anonymous)
  also have "\<dots> = map content (map (name_finding text bbox page_num)
                       (accepted_indicators text categories t))"
    by (simp only: anon_name_part)
  also have "\<dots> = (if ''NAME'' \<in> set categories
    then map (\<lambda>indicator.
                (''NAME'', ''Name'',
                 indicator @ '' '' @ join '' '' (name_tokens indicator text),
                 0.75, page_num, bbox))
           (filter (\<lambda>indicator.
                      contains indicator text \<and>
                      2 \<le> length (name_tokens indicator text) \<and>
                      list_all (\<lambda>w. isupper (hd w)) (name_tokens indicator text) \<and>
                      t \<le> 0.75)
              NAME_INDICATORS)
    else [])"
    by (simp add: accepted_indicators_def name_accepted_def content_def name_finding_def)
  finally show ?thesis .
qed

text \<open>
  On \<^verbatim>\<open>Mrs. Jane Doe Dr. Ann\<close> the candidate of \<^verbatim>\<open>Mrs.\<close> is accepted, and the candidate of
  \<^verbatim>\<open>Dr.\<close> has one token only.
\<close>

theorem detect_in_text_name_heuristic_witness:
  "map content (filter (\<lambda>f. f_category f = ''NAME'')
      (detect_in_text round_double (\<lambda>pattern s. []) (\<lambda>k. ''1a2b3c4d'')
         ''Mrs. Jane Doe Dr. Ann'' (0, 0, 100, 10) 2 [''NAME''] 0.7)) =
   [(''NAME'', ''Name'', ''Mrs. Jane Doe Dr.'', 0.75, 2, (0, 0, 100, 10))]"
  using detect_in_text_name_heuristic
    [of round_double "\<lambda>pattern s. []" "\<lambda>k. ''1a2b3c4d''" "''Mrs. Jane Doe Dr. Ann''"
        "(0, 0, 100, 10)" 2 "[''NAME'']" "0.7"]
  by (simp add: NAME_INDICATORS_def sample_contains sample_tokens isupper_def latin1_upper_def
        del: contains.simps)

text \<open>
  Names in Latin-1: a capital with an accent starts a name, and a no-break space
  separates two tokens.
\<close>

lemma detect_in_text_latin1_names:
  "map f_text
     (detect_in_text round_double (\<lambda>pattern s. []) (\<lambda>k. ''1a2b3c4d'')
        (''Dr. '' @ [CHR 0xC9] @ ''mile Zola'') (0, 0, 100, 10) 1 [''NAME''] 0.7) =
     [''Dr. '' @ [CHR 0xC9] @ ''mile Zola'']"
  "map f_text
     (detect_in_text round_double (\<lambda>pattern s. []) (\<lambda>k. ''1a2b3c4d'')
        (''Dr. John'' @ [CHR 0xA0] @ ''Smith'') (0, 0, 100, 10) 1 [''NAME''] 0.7) =
     [''Dr. John Smith'']"
  by (simp_all add: split_ws_def isspace_def isupper_def latin1_upper_def detect_in_text_def
        category_step_def PATTERNS_def NAME_INDICATORS_def indicator_step_def split_def strip_def
        calculate_confidence_def Let_def)

text \<open>
  The claim as it was stated fails twice. With the threshold 0.8, the two upper-case
  tokens after \<^verbatim>\<open>Dr.\<close> give no finding. With a second \<^verbatim>\<open>Dr.\<close> among the next three tokens,
  the three tokens after the first occurrence are all upper-case, and there is no finding:
  the code only sees the token \<^verbatim>\<open>Ann\<close>.
\<close>

theorem detect_in_text_name_heuristic_counterexample:
  "contains ''Dr.'' ''Dr. John Smith''
   \<and> take 3 (split_ws (after_first ''Dr.'' ''Dr. John Smith'')) = [''John'', ''Smith'']
   \<and> list_all (\<lambda>w. isupper (hd w)) [''John'', ''Smith'']
   \<and> detect_in_text round_double (\<lambda>pattern s. []) (\<lambda>k. ''1a2b3c4d'') ''Dr. John Smith'' (0, 0, 100, 10) 1
        [''NAME''] 0.8 = []
   \<and> contains ''Dr.'' ''Dr. Ann Dr. Bob Cole''
   \<and> take 3 (split_ws (after_first ''Dr.'' ''Dr. Ann Dr. Bob Cole'')) = [''Ann'', ''Dr.'', ''Bob'']
   \<and> list_all (\<lambda>w. isupper (hd w)) [''Ann'', ''Dr.'', ''Bob'']
   \<and> detect_in_text round_double (\<lambda>pattern s. []) (\<lambda>k. ''1a2b3c4d'') ''Dr. Ann Dr. Bob Cole'' (0, 0, 100, 10) 1
        [''NAME''] 0.7 = []"
  by (simp add: split_ws_def isspace_def isupper_def latin1_upper_def detect_in_text_def category_step_def
        PATTERNS_def NAME_INDICATORS_def indicator_step_def split_def strip_def
        calculate_confidence_def Let_def)

text \<open>
  Claim C8. A requested category that has no pattern and is not NAME is skipped: the run
  returns what it returns without that category in the request, identifiers included,
  and no finding of the run has that category. (In the model a run always returns a list:
  nothing is raised.)
\<close>

theorem detect_in_text_unknown_category:
  assumes "c \<notin> set (map fst PATTERNS)" and "c \<noteq> ''NAME''"
  shows "detect_in_text rnd finditer uuid text bbox page_num (cs1 @ c # cs2) t =
         detect_in_text rnd finditer uuid text bbox page_num (cs1 @ cs2) t
       \<and> filter (\<lambda>f. f_category f = c)
           (detect_in_text rnd finditer uuid text bbox page_num (cs1 @ c # cs2) t) = []"
proof
  show "detect_in_text rnd finditer uuid text bbox page_num (cs1 @ c # cs2) t =
         detect_in_text rnd finditer uuid text bbox page_num (cs1 @ cs2) t"
    using assms by (simp add: detect_in_text_def category_step_unknown)
next
  have "f_category f \<noteq> c"
    if "f \<in> set (detect_in_text rnd finditer uuid text bbox page_num (cs1 @ c # cs2) t)" for f
    using cases_detect_in_text [OF that]
  proof
    assume "\<exists>cm \<in> set (accepted_matches finditer text (cs1 @ c # cs2) t).
            anonymous f = pattern_finding rnd text bbox page_num cm"
    then obtain c' m where cm: "(c', m) \<in> set (accepted_matches finditer text (cs1 @ c # cs2) t)"
      and f: "anonymous f = pattern_finding rnd text bbox page_num (c', m)" by auto
    from accepted_matchesD(2) [OF cm] have "c' \<in> set (map fst PATTERNS)"
      by (metis map_of_eq_None_iff set_map)
    moreover have "f_category f = c'"
      using arg_cong [OF f, of f_category] by (simp add: anonymous_fields pattern_finding_def)
    ultimately show ?thesis using assms(1) by auto
  next
    assume "\<exists>i \<in> set (accepted_indicators text (cs1 @ c # cs2) t).
            anonymous f = name_finding text bbox page_num i"
    then obtain i where f: "anonymous f = name_finding text bbox page_num i" by auto
    have "f_category f = ''NAME''"
      using arg_cong [OF f, of f_category] by (simp add: anonymous_fields name_finding_def)
    then show ?thesis using assms(2) by simp
  qed
  then show "filter (\<lambda>f. f_category f = c)
           (detect_in_text rnd finditer uuid text bbox page_num (cs1 @ c # cs2) t) = []"
    by (simp add: filter_empty_conv)
qed

theorem detect_in_text_unknown_category_witness:
  "''PASSPORT'' \<notin> set (map fst PATTERNS) \<and> ''PASSPORT'' \<noteq> ''NAME''
   \<and> detect_in_text round_double (\<lambda>pattern s. [(2, 5)]) (\<lambda>k. ''1a2b3c4d'') ''0123456789'' (0, 0, 100, 10) 1
        [''ZIP_CODE'', ''PASSPORT'', ''SSN''] 0.9 =
      detect_in_text round_double (\<lambda>pattern s. [(2, 5)]) (\<lambda>k. ''1a2b3c4d'') ''0123456789'' (0, 0, 100, 10) 1
        [''ZIP_CODE'', ''SSN''] 0.9
   \<and> filter (\<lambda>f. f_category f = ''PASSPORT'')
        (detect_in_text round_double (\<lambda>pattern s. [(2, 5)]) (\<lambda>k. ''1a2b3c4d'') ''0123456789''
           (0, 0, 100, 10) 1 [''ZIP_CODE'', ''PASSPORT'', ''SSN''] 0.9) = []
   \<and> map content
        (detect_in_text round_double (\<lambda>pattern s. [(2, 5)]) (\<lambda>k. ''1a2b3c4d'') ''0123456789''
           (0, 0, 100, 10) 1 [''ZIP_CODE'', ''SSN''] 0.9) =
      [(''SSN'', ''Ssn'', ''234'', 0.95, 1, (20, 0, 50, 10))]"
proof -
  have 1: "''PASSPORT'' \<notin> set (map fst PATTERNS)"
    by (simp add: PATTERNS_def)
  have 2: "''PASSPORT'' \<noteq> ''NAME''" by simp
  have 3: "[''ZIP_CODE''] @ ''PASSPORT'' # [''SSN''] = [''ZIP_CODE'', ''PASSPORT'', ''SSN'']"
    "[''ZIP_CODE''] @ [''SSN''] = [''ZIP_CODE'', ''SSN'']"
    by simp_all
  note u = detect_in_text_unknown_category [OF 1 2,
      of round_double "\<lambda>pattern s. [(2, 5)]" "\<lambda>k. ''1a2b3c4d''" "''0123456789''" "(0, 0, 100, 10)" 1
         "[''ZIP_CODE'']" "[''SSN'']" "0.9", unfolded 3]
  from u sample_run 1 2 show ?thesis
    by blast
qed

text \<open>
  Claim C9. Two runs of \<open>detect_in_text\<close> on the same text, bounding box, page number,
  categories and threshold return lists of the same length whose findings agree, position
  by position, in category, name, text, confidence, page and bounding box, whatever random
  suffixes \<open>uuid\<close> and \<open>uuid'\<close> the two runs draw for the identifiers.
\<close>

theorem detect_in_text_deterministic:
  "map content (detect_in_text rnd finditer uuid text bbox page_num categories t) =
   map content (detect_in_text rnd finditer uuid' text bbox page_num categories t)"
proof -
  have "map anonymous (detect_in_text rnd finditer uuid text bbox page_num categories t) =
        map anonymous (detect_in_text rnd finditer uuid' text bbox page_num categories t)"
    by (simp only: anon_detect_in_text)
  then have "map content (map anonymous
               (detect_in_text rnd finditer uuid text bbox page_num categories t)) =
        map content (map anonymous
               (detect_in_text rnd finditer uuid' text bbox page_num categories t))"
    by (rule arg_cong)
  then show ?thesis by (simp only: map_content_anonymous)
qed

text \<open>
  Claim C10. Every NAME finding of a run carries the bounding box of the whole span: the
  name heuristic does not project the box.
\<close>

theorem detect_in_text_name_bbox:
  "\<forall>f \<in> set (detect_in_text rnd finditer uuid text bbox page_num categories t).
     f_category f = ''NAME'' \<longrightarrow> f_bbox f = bbox"
proof (intro ballI impI)
  fix f assume "f \<in> set (detect_in_text rnd finditer uuid text bbox page_num categories t)"
    and name: "f_category f = ''NAME''"
  from cases_detect_in_text [OF this(1)] show "f_bbox f = bbox"
  proof
    assume "\<exists>cm \<in> set (accepted_matches finditer text categories t).
            anonymous f = pattern_finding rnd text bbox page_num cm"
    then obtain c m where cm: "(c, m) \<in> set (accepted_matches finditer text categories t)"
      and f: "anonymous f = pattern_finding rnd text bbox page_num (c, m)" by auto
    from cm have "c \<noteq> ''NAME''"
      using accepted_matchesD(2) PATTERNS_NAME by blast
    moreover have "f_category f = c"
      using arg_cong [OF f, of f_category] by (simp add: anonymous_fields pattern_finding_def)
    ultimately show ?thesis using name by simp
  next
    assume "\<exists>i \<in> set (accepted_indicators text categories t).
            anonymous f = name_finding text bbox page_num i"
    then obtain i where f: "anonymous f = name_finding text bbox page_num i" by auto
    show ?thesis
      using arg_cong [OF f, of f_bbox] by (simp add: anonymous_fields name_finding_def)
  qed
qed

theorem detect_in_text_name_bbox_witness:
  "map (\<lambda>f. (f_category f, f_bbox f))
     (detect_in_text round_double (\<lambda>pattern s. []) (\<lambda>k. ''1a2b3c4d'') ''see Prof. Ada Byron'' (5, 6, 70, 8) 3
        [''NAME''] 0.7) = [(''NAME'', (5, 6, 70, 8))]"
  using detect_in_text_name_bbox
    [of round_double "\<lambda>pattern s. []" "\<lambda>k. ''1a2b3c4d''" "''see Prof. Ada Byron''" "(5, 6, 70, 8)" 3
        "[''NAME'']" "0.7"]
  by (simp add: sample_name_run)

section \<open>Validating and applying a redaction area\<close>

lemma py_float_raises:
  "py_float parse v = Inl e \<Longrightarrow> e = ValueError \<or> e = TypeError \<or> e = OverflowError"
  by (cases v) (auto simp: py_float_def split: if_splits option.splits)

lemma py_number_raises: "py_number v = Inl e \<Longrightarrow> e = TypeError"
  by (cases v) (auto simp: py_number_def)

lemma py_bind_raises:
  "py_bind r f = Inl e \<Longrightarrow> r = Inl e \<or> (\<exists>v. r = Inr v \<and> f v = Inl e)"
  by (cases r) (simp_all add: py_bind_def)

lemma validate_try_raises:
  assumes "validate_try parse area page_count = Inl e"
  shows "e = ValueError \<or> e = TypeError \<or> e = OverflowError"
proof -
  note fl = py_float_raises [of parse _ e]
  from assms [unfolded validate_try_def Let_def] show ?thesis
    apply (elim py_bind_raises [THEN disjE] exE conjE)
    apply (auto dest: fl py_number_raises split: if_splits)
    done
qed

lemma validate_redaction_area_raises:
  assumes "validate_redaction_area parse area page_count = Inl e"
  shows "e = OverflowError"
proof (cases "validate_try parse area page_count")
  case (Inl e')
  with validate_try_raises [OF Inl] assms show ?thesis
    by (auto simp: validate_redaction_area_def)
next
  case (Inr b)
  with assms show ?thesis by (simp add: validate_redaction_area_def)
qed

lemma py_float_JFloat: "py_float parse (JFloat r) = Inr r"
  by (simp add: py_float_def)

lemma validate_redaction_area_numeric:
  assumes "area ''page'' = Some (JInt page)"
    and "area ''x'' = Some (JFloat x)" and "area ''y'' = Some (JFloat y)"
    and "area ''width'' = Some (JFloat width)" and "area ''height'' = Some (JFloat height)"
  shows "validate_redaction_area parse area page_count =
     Inr (\<not> (page < 1 \<or> page > page_count \<or> x < 0 \<or> y < 0 \<or> width \<le> 0 \<or> height \<le> 0 \<or>
              width > 10000 \<or> height > 10000))"
  using assms
  by (simp add: validate_redaction_area_def validate_try_def py_bind_def dict_get_def
        py_float_JFloat py_number_def)

lemma validate_redaction_area_parse_failure:
  assumes "validate_try parse area page_count = Inl e" and "e = ValueError \<or> e = TypeError"
  shows "validate_redaction_area parse area page_count = Inr False"
  using assms by (auto simp: validate_redaction_area_def)

lemma py_bind_Inr: "py_bind (Inr v) f = f v"
  by (simp add: py_bind_def)

lemma py_bind_eq_Inr:
  "py_bind r f = Inr b \<Longrightarrow> \<exists>v. r = Inr v \<and> f v = Inr b"
  by (cases r) (simp_all add: py_bind_def)

lemma validate_redaction_area_True:
  assumes "validate_redaction_area parse area page_count = Inr True"
  shows "\<exists>x y width height page.
           py_float parse (dict_get area ''x'' (JInt 0)) = Inr x \<and>
           py_float parse (dict_get area ''y'' (JInt 0)) = Inr y \<and>
           py_float parse (dict_get area ''width'' (JInt 0)) = Inr width \<and>
           py_float parse (dict_get area ''height'' (JInt 0)) = Inr height \<and>
           py_number (dict_get area ''page'' (JInt 1)) = Inr page \<and>
           1 \<le> page \<and> page \<le> real_of_int page_count"
proof -
  from assms have t: "validate_try parse area page_count = Inr True"
    by (auto simp: validate_redaction_area_def split: sum.splits py_error.splits)
  then obtain x where x: "py_float parse (dict_get area ''x'' (JInt 0)) = Inr x"
    by (cases "py_float parse (dict_get area ''x'' (JInt 0))")
       (simp_all add: validate_try_def py_bind_def)
  from t x obtain y where y: "py_float parse (dict_get area ''y'' (JInt 0)) = Inr y"
    by (cases "py_float parse (dict_get area ''y'' (JInt 0))")
       (simp_all add: validate_try_def py_bind_def)
  from t x y obtain width where w: "py_float parse (dict_get area ''width'' (JInt 0)) = Inr width"
    by (cases "py_float parse (dict_get area ''width'' (JInt 0))")
       (simp_all add: validate_try_def py_bind_def)
  from t x y w obtain height where h: "py_float parse (dict_get area ''height'' (JInt 0)) = Inr height"
    by (cases "py_float parse (dict_get area ''height'' (JInt 0))")
       (simp_all add: validate_try_def py_bind_def)
  from t x y w h obtain page where p: "py_number (dict_get area ''page'' (JInt 1)) = Inr page"
    by (cases "py_number (dict_get area ''page'' (JInt 1))")
       (simp_all add: validate_try_def py_bind_def)
  from t x y w h p have "1 \<le> page \<and> page \<le> real_of_int page_count"
    by (simp add: validate_try_def py_bind_def split: if_splits)
  with x y w h p show ?thesis by blast
qed

lemma wide_area_valid: "validate_redaction_area parse wide_area (int (length [(612, 792)])) = Inr True"
  by (simp add: wide_area_def validate_redaction_area_def validate_try_def py_bind_def
        dict_get_def py_float_JFloat py_number_def)

text \<open>
  Claim C4. \<open>validate_redaction_area\<close> returns false exactly when the page is outside
  \<open>[1, pageCount]\<close>, \<open>x\<close> or \<open>y\<close> is negative, or the width or height is not positive or
  exceeds 10000, and never raises: a value that cannot be converted also gives false. The
  code catches \<^verbatim>\<open>ValueError\<close> and \<^verbatim>\<open>TypeError\<close> only: on an area whose \<^verbatim>\<open>x\<close> is an integer too
  large for a float the conversion raises \<^verbatim>\<open>OverflowError\<close>, which leaves the function.
\<close>

theorem validate_redaction_area_overflow:
  "validate_redaction_area parse overflow_area 3 = Inl OverflowError"
  by (simp add: overflow_area_def validate_redaction_area_def validate_try_def py_bind_def
        dict_get_def py_float_def)

text \<open>
  An area with an integer page and the four coordinates that passes the validation is
  applied, whether or not its rectangle \<open>(x, y, x + width, y + height)\<close> lies within the
  page: the step adds the annotation and counts it, and the only effect of a rectangle
  beyond the page is one more warning in the log.
\<close>

lemma redact_step_well_formed:
  assumes valid: "validate_redaction_area parse item (int (length doc)) = Inr True"
    and page: "item ''page'' = Some (JInt page)"
    and keys: "item ''x'' = Some vx" "item ''y'' = Some vy"
              "item ''width'' = Some vw" "item ''height'' = Some vh"
  shows "\<exists>x y width height.
           py_float parse vx = Inr x \<and> py_float parse vy = Inr y \<and>
           py_float parse vw = Inr width \<and> py_float parse vh = Inr height \<and>
           redact_step parse doc item st =
             Inr \<lparr>annots = annots st @ [(page - 1, (x, y, x + width, y + height))],
                  redactions_applied = redactions_applied st + 1,
                  logged = logged st @
                    [(INFO, ''Processing redaction area''),
                     (INFO, ''Applying redaction on page''),
                     (INFO, ''Page dimensions''),
                     (INFO, ''Redaction rectangle''),
                     (INFO, ''Rectangle bounds'')] @
                    (if x < 0 \<or> y < 0 \<or> x + width > fst (doc ! nat (page - 1))
                          \<or> y + height > snd (doc ! nat (page - 1))
                     then [(WARNING, ''Rectangle extends beyond page bounds'')] else []) @
                    [(INFO, ''Successfully added redaction annotation'')]\<rparr>"
proof -
  from validate_redaction_area_True [OF valid] keys page
  obtain x y width height where
    f: "py_float parse vx = Inr x" "py_float parse vy = Inr y"
       "py_float parse vw = Inr width" "py_float parse vh = Inr height"
    and p: "1 \<le> page" "page \<le> int (length doc)"
    by (auto simp: dict_get_def py_number_def)
  have idx: "doc_getitem doc (JInt (page - 1)) = Inr (doc ! nat (page - 1))"
    using p by (simp add: doc_getitem_def)
  have "redact_step parse doc item st =
             Inr \<lparr>annots = annots st @ [(page - 1, (x, y, x + width, y + height))],
                  redactions_applied = redactions_applied st + 1,
                  logged = logged st @
                    [(INFO, ''Processing redaction area''),
                     (INFO, ''Applying redaction on page''),
                     (INFO, ''Page dimensions''),
                     (INFO, ''Redaction rectangle''),
                     (INFO, ''Rectangle bounds'')] @
                    (if x < 0 \<or> y < 0 \<or> x + width > fst (doc ! nat (page - 1))
                          \<or> y + height > snd (doc ! nat (page - 1))
                     then [(WARNING, ''Rectangle extends beyond page bounds'')] else []) @
                    [(INFO, ''Successfully added redaction annotation'')]\<rparr>"
    by (simp add: redact_step_def valid py_bind_Inr Let_def dict_get_def page page_index_def idx
          dict_item_def keys f logger_def the_index_def)
  with f show ?thesis by blast
qed

lemma redact_step_well_formed_example:
  "validate_redaction_area (\<lambda>s. None) wide_area 1 = Inr True
   \<and> (650 :: real) > 612
   \<and> redact_step (\<lambda>s. None) [(612, 792)] wide_area
         \<lparr>annots = [], redactions_applied = 0, logged = []\<rparr> =
       Inr \<lparr>annots = [(0, (600, 10, 650, 60))],
            redactions_applied = 1,
            logged =
              [(INFO, ''Processing redaction area''),
               (INFO, ''Applying redaction on page''),
               (INFO, ''Page dimensions''),
               (INFO, ''Redaction rectangle''),
               (INFO, ''Rectangle bounds''),
               (WARNING, ''Rectangle extends beyond page bounds''),
               (INFO, ''Successfully added redaction annotation'')]\<rparr>"
proof -
  have v: "validate_redaction_area (\<lambda>s. None) wide_area (int (length [(612 :: real, 792 :: real)])) = Inr True"
    by (rule wide_area_valid)
  have k: "wide_area ''page'' = Some (JInt 1)" "wide_area ''x'' = Some (JFloat 600)"
    "wide_area ''y'' = Some (JFloat 10)" "wide_area ''width'' = Some (JFloat 50)"
    "wide_area ''height'' = Some (JFloat 50)"
    by (simp_all add: wide_area_def)
  from redact_step_well_formed [OF v k,
      of "\<lparr>annots = [], redactions_applied = 0, logged = []\<rparr>"] v
  show ?thesis
    by (simp add: py_float_JFloat)
qed

text \<open>
  Claim C5. Every redaction area that passes the validation is applied, also when its
  rectangle reaches beyond the page, which is only logged. The validation reads a missing
  coordinate as 0, the loop reads the coordinates with \<^verbatim>\<open>item["x"]\<close>: an area without
  \<^verbatim>\<open>x\<close> passes the validation and then raises \<^verbatim>\<open>KeyError\<close> in the loop, which ends the
  request, and the area is not applied.
\<close>

theorem redact_step_missing_coordinate:
  "validate_redaction_area parse partial_area 1 = Inr True
   \<and> redact_step parse [(612, 792)] partial_area st = Inl KeyError"
  by (simp add: partial_area_def redact_step_def validate_redaction_area_def validate_try_def
        py_bind_def dict_get_def dict_item_def py_float_def py_number_def page_index_def
        doc_getitem_def logger_def Let_def)

end
